theory Spec2Isabelle
  imports Complex_Main "HOL-Library.Char_ord" "HOL-Library.List_Lexorder" "HOL-Library.Multiset"
begin

section \<open>Strings\<close>

text \<open>
  Python \<open>str\<close> values are modelled as \<open>string\<close>, read as the UTF-8 bytes of the text.
  Comparing two such byte strings lexicographically gives the order Python uses (code points),
  and an ASCII byte such as \<open>:\<close> or \<open>=\<close> never occurs inside a multi-byte character.
\<close>

text \<open>\<open>sep.join(xs)\<close>\<close>

fun join :: "string \<Rightarrow> string list \<Rightarrow> string" where
  "join sep [] = []"
| "join sep [x] = x"
| "join sep (x # y # ys) = x @ sep @ join sep (y # ys)"

section \<open>Instrument keys (\<open>MetricsRegistry._metric_key\<close>)\<close>

text \<open>
  A \<open>Dict[str, str]\<close> of tags is an association list in insertion order; in a real dict the
  keys are distinct.
\<close>

type_synonym tags = "(string \<times> string) list"

text \<open>The f-string \<open>f"{k}={v}"\<close>.\<close>

definition tag_pair :: "string \<times> string \<Rightarrow> string" where
  "tag_pair kv = fst kv @ ''='' @ snd kv"

text \<open>
  \<^verbatim>\<open>
  if not tags: return name
  tag_pairs = sorted(f"{k}={v}" for k, v in tags.items())
  return f"{name}{{{','.join(tag_pairs)}}}"
  \<close>
\<close>

definition metric_key :: "string \<Rightarrow> tags \<Rightarrow> string" where
  "metric_key name tags =
     (if tags = [] then name
      else name @ ''{'' @ join '','' (sort (map tag_pair tags)) @ ''}'')"

text \<open>
  The key as the specification words it: the tag pairs sorted by their key, then rendered.
\<close>

definition spec_metric_key :: "string \<Rightarrow> tags \<Rightarrow> string" where
  "spec_metric_key name tags =
     (if tags = [] then name
      else name @ ''{'' @ join '','' (map tag_pair (sort_key fst tags)) @ ''}'')"


section \<open>Data points and the OTLP payload\<close>

text \<open>
  The dataclass \<open>MetricDataPoint\<close>. \<open>metric_type\<close> is a Python string; the instruments
  write \<open>'counter'\<close>, \<open>'gauge'\<close> or \<open>'histogram'\<close> there. Python floats are modelled as
  reals: the code only compares a value with zero, adds or subtracts one, multiplies a
  timestamp by \<open>10^9\<close>, and copies it. The real operations are exact where the float ones
  round (a sum beyond \<open>2^53\<close>, a product with a fractional timestamp), and there is no
  \<open>nan\<close> or \<open>inf\<close>; the statements below use these operations at 0 and 1 only, where
  floats are exact too.
\<close>

record MetricDataPoint =
  dp_name :: string
  dp_tags :: tags
  dp_value :: real
  dp_timestamp :: real
  dp_metric_type :: string

datatype json =
    JString string
  | JInt int
  | JDouble real
  | JBool bool
  | JArray "json list"
  | JObject "(string \<times> json) list"

datatype exn = Exception string

text \<open>\<open>str(n)\<close> for an integer, and \<open>int(x)\<close> for a float (truncation towards zero).\<close>

fun str_nat :: "nat \<Rightarrow> string" where
  "str_nat n =
     (if n < 10 then [''0123456789'' ! n]
      else str_nat (n div 10) @ [''0123456789'' ! (n mod 10)])"

declare str_nat.simps [simp del]

definition str_int :: "int \<Rightarrow> string" where
  "str_int i = (if i < 0 then ''-'' @ str_nat (nat (- i)) else str_nat (nat i))"

definition py_int :: "real \<Rightarrow> int" where
  "py_int x = (if x < 0 then \<lceil>x\<rceil> else \<lfloor>x\<rfloor>)"

text \<open>
  The grouping loop of \<open>_to_otlp\<close>. The dict \<open>grouped\<close> keeps its keys in the order of their
  first insertion, so it is an association list:
  \<^verbatim>\<open>
  key = f"{dp.name}:{dp.metric_type}"
  if key not in grouped:
      grouped[key] = []
  grouped[key].append(dp)
  \<close>
\<close>

definition group_key :: "MetricDataPoint \<Rightarrow> string" where
  "group_key dp = dp_name dp @ '':'' @ dp_metric_type dp"

fun grouped_append :: "string \<Rightarrow> 'a \<Rightarrow> (string \<times> 'a list) list \<Rightarrow> (string \<times> 'a list) list" where
  "grouped_append key dp [] = [(key, [dp])]"
| "grouped_append key dp ((k, dps) # rest) =
     (if k = key then (k, dps @ [dp]) # rest else (k, dps) # grouped_append key dp rest)"

definition group_points :: "MetricDataPoint list \<Rightarrow> (string \<times> MetricDataPoint list) list" where
  "group_points data_points = foldl (\<lambda>grouped dp. grouped_append (group_key dp) dp grouped) [] data_points"

text \<open>
  \<open>name, metric_type = key.split(':', 1)\<close>: the key is cut at its first colon; with no colon
  the unpacking of a one-element list raises \<open>ValueError\<close>.
\<close>

definition split_key :: "string \<Rightarrow> exn + (string \<times> string)" where
  "split_key key =
     (if CHR '':'' \<in> set key
      then Inr (takeWhile (\<lambda>c. c \<noteq> CHR '':'') key, tl (dropWhile (\<lambda>c. c \<noteq> CHR '':'') key))
      else Inl (Exception ''not enough values to unpack (expected 2, got 1)''))"

definition otlp_attributes :: "tags \<Rightarrow> json" where
  "otlp_attributes ts =
     JArray (map (\<lambda>(k, v). JObject [(''key'', JString k),
                                      (''value'', JObject [(''stringValue'', JString v)])]) ts)"

definition otlp_data_point :: "MetricDataPoint \<Rightarrow> json" where
  "otlp_data_point dp =
     JObject [(''attributes'', otlp_attributes (dp_tags dp)),
              (''timeUnixNano'', JString (str_int (py_int (dp_timestamp dp * 1000000000)))),
              (''asDouble'', JDouble (dp_value dp))]"

definition otlp_metric :: "string \<times> MetricDataPoint list \<Rightarrow> exn + json" where
  "otlp_metric g =
     (case split_key (fst g) of
        Inl e \<Rightarrow> Inl e
      | Inr (name, metric_type) \<Rightarrow>
          let otlp_data_points = map otlp_data_point (snd g) in
          if metric_type = ''counter''
          then Inr (JObject [(''name'', JString name),
                             (''sum'', JObject [(''dataPoints'', JArray otlp_data_points),
                                                (''aggregationTemporality'', JInt 2),
                                                (''isMonotonic'', JBool True)])])
          else Inr (JObject [(''name'', JString name),
                             (''gauge'', JObject [(''dataPoints'', JArray otlp_data_points)])]))"

text \<open>The loop \<open>for key, dps in grouped.items(): ... metrics.append(metric)\<close>.\<close>

fun otlp_metrics :: "(string \<times> MetricDataPoint list) list \<Rightarrow> exn + json list" where
  "otlp_metrics [] = Inr []"
| "otlp_metrics (g # gs) =
     (case otlp_metric g of
        Inl e \<Rightarrow> Inl e
      | Inr metric \<Rightarrow> (case otlp_metrics gs of Inl e \<Rightarrow> Inl e | Inr metrics \<Rightarrow> Inr (metric # metrics)))"

record MetricsExporter =
  endpoint :: string
  api_key :: string
  service_name :: string

definition to_otlp :: "MetricsExporter \<Rightarrow> MetricDataPoint list \<Rightarrow> exn + json" where
  "to_otlp self data_points =
     (case otlp_metrics (group_points data_points) of
        Inl e \<Rightarrow> Inl e
      | Inr metrics \<Rightarrow>
          Inr (JObject [(''resourceMetrics'', JArray [
                 JObject [(''resource'', JObject [(''attributes'', JArray [
                              JObject [(''key'', JString ''service.name''),
                                       (''value'', JObject [(''stringValue'', JString (service_name self))])]])]),
                          (''scopeMetrics'', JArray [
                              JObject [(''scope'', JObject [(''name'', JString ''tracekit'')]),
                                       (''metrics'', JArray metrics)]])]])]))"


text \<open>
  The metric entry of a group as the specification describes it: a counter group under
  \<open>sum\<close> with delta temporality and the monotonic flag, any other group under \<open>gauge\<close>.
\<close>

definition spec_metric :: "string \<Rightarrow> string \<Rightarrow> MetricDataPoint list \<Rightarrow> json" where
  "spec_metric name metric_type dps =
     (if metric_type = ''counter''
      then JObject [(''name'', JString name),
                    (''sum'', JObject [(''dataPoints'', JArray (map otlp_data_point dps)),
                                       (''aggregationTemporality'', JInt 2),
                                       (''isMonotonic'', JBool True)])]
      else JObject [(''name'', JString name),
                    (''gauge'', JObject [(''dataPoints'', JArray (map otlp_data_point dps))])])"

text \<open>The two parts of a key around its first colon.\<close>

definition cut :: "string \<Rightarrow> string \<times> string" where
  "cut key = (takeWhile (\<lambda>c. c \<noteq> CHR '':'') key, tl (dropWhile (\<lambda>c. c \<noteq> CHR '':'') key))"

definition group_of :: "MetricDataPoint \<Rightarrow> string \<times> string" where
  "group_of dp = (dp_name dp, dp_metric_type dp)"

section \<open>The exporter and the world it talks to\<close>

text \<open>
  What \<open>MetricsExporter.export\<close> does to the outside is recorded in a \<open>world\<close>: every call
  of \<open>export\<close> with its argument, every request body handed to \<open>conn.request\<close> (whether or not the connection then
  fails), and every line printed.
  The collector is not part of the program: \<open>net w i\<close> is what happens to request number
  \<open>i\<close>, either a response with a status code or an exception of the HTTP client.
  URL parsing, JSON serialisation and the headers are left out.
\<close>

datatype http_outcome = Status nat | ConnectionFailure string

record world =
  export_calls :: "MetricDataPoint list list"
  posted :: "json list"
  stdout :: "string list"
  net :: "nat \<Rightarrow> http_outcome"

text \<open>
  \<^verbatim>\<open>
  if not data_points: return
  payload = self._to_otlp(data_points)
  ...
  conn.request('POST', url.path, body=body, headers=headers)
  response = conn.getresponse()
  if response.status != 200:
      raise Exception(f"HTTP {response.status}")
  \<close>
  The result pairs the outcome (\<open>Inl\<close> an exception that leaves \<open>export\<close>) with the world.
\<close>

definition export :: "MetricsExporter \<Rightarrow> MetricDataPoint list \<Rightarrow> world \<Rightarrow> (exn + unit) \<times> world" where
  "export self data_points w0 =
     (let w = w0\<lparr>export_calls := export_calls w0 @ [data_points]\<rparr> in
      if data_points = [] then (Inr (), w)
      else case to_otlp self data_points of
             Inl e \<Rightarrow> (Inl e, w)
           | Inr payload \<Rightarrow>
               let w' = w\<lparr>posted := posted w @ [payload]\<rparr> in
               (case net w (length (posted w)) of
                  ConnectionFailure msg \<Rightarrow> (Inl (Exception msg), w')
                | Status code \<Rightarrow>
                    if code \<noteq> 200 then (Inl (Exception (''HTTP '' @ str_nat code)), w')
                    else (Inr (), w')))"

section \<open>The buffer (\<open>MetricsBuffer\<close>)\<close>

text \<open>
  The lock and the thread handle are left out: the operations below are the bodies of the
  methods, run one at a time. \<open>buf_flush_interval\<close> is in seconds.
\<close>

record MetricsBuffer =
  buf_data :: "MetricDataPoint list"
  buf_exporter :: MetricsExporter
  buf_shutdown :: bool
  buf_max_size :: nat
  buf_flush_interval :: real

type_synonym state = "MetricsBuffer \<times> world"

definition MetricsBuffer_init :: "string \<Rightarrow> string \<Rightarrow> string \<Rightarrow> MetricsBuffer" where
  "MetricsBuffer_init ep key svc =
     \<lparr>buf_data = [],
      buf_exporter = \<lparr>endpoint = ep, api_key = key, service_name = svc\<rparr>,
      buf_shutdown = False,
      buf_max_size = 100,
      buf_flush_interval = 10\<rparr>"

definition str_exn :: "exn \<Rightarrow> string" where
  "str_exn e = (case e of Exception msg \<Rightarrow> msg)"

text \<open>
  \<^verbatim>\<open>
  with self._lock:
      if not self.data: return
      to_export = self.data
      self.data = []
  try:
      self.exporter.export(to_export)
  except Exception as e:
      print(f"Failed to export metrics: {e}")
  \<close>
  The result is \<open>Inl\<close> when an exception leaves the method.
\<close>

definition flush :: "state \<Rightarrow> exn + state" where
  "flush s =
     (let self = fst s; w = snd s in
      if buf_data self = [] then Inr (self, w)
      else
        let to_export = buf_data self;
            self' = self\<lparr>buf_data := []\<rparr>
        in case export (buf_exporter self') to_export w of
             (Inr _, w') \<Rightarrow> Inr (self', w')
           | (Inl e, w') \<Rightarrow>
               Inr (self', w'\<lparr>stdout := stdout w' @ [''Failed to export metrics: '' @ str_exn e]\<rparr>))"

text \<open>
  \<^verbatim>\<open>
  if self._shutdown: return
  with self._lock:
      self.data.append(data_point)
      should_flush = len(self.data) >= self.max_size
  if should_flush:
      self._flush()
  \<close>
\<close>

definition add :: "MetricDataPoint \<Rightarrow> state \<Rightarrow> exn + state" where
  "add data_point s =
     (let self = fst s; w = snd s in
      if buf_shutdown self then Inr (self, w)
      else
        let self' = self\<lparr>buf_data := buf_data self @ [data_point]\<rparr>;
            should_flush = (length (buf_data self') \<ge> buf_max_size self')
        in if should_flush then flush (self', w) else Inr (self', w))"

text \<open>
  \<open>shutdown\<close> sets the flag, waits for the worker (not modelled) and flushes once more.
\<close>

definition shutdown :: "state \<Rightarrow> exn + state" where
  "shutdown s = flush ((fst s)\<lparr>buf_shutdown := True\<rparr>, snd s)"

text \<open>
  One round of the worker's loop, after its sleep:
  \<open>if not self._shutdown: self._flush()\<close>.
\<close>

definition flush_loop_round :: "state \<Rightarrow> exn + state" where
  "flush_loop_round s = (if \<not> buf_shutdown (fst s) then flush s else Inr s)"

text \<open>A sequence of calls; an exception that leaves one call ends the sequence.\<close>

datatype call = Add MetricDataPoint | Flush | Shutdown | WorkerRound

fun run_call :: "call \<Rightarrow> state \<Rightarrow> exn + state" where
  "run_call (Add p) s = add p s"
| "run_call Flush s = flush s"
| "run_call Shutdown s = shutdown s"
| "run_call WorkerRound s = flush_loop_round s"

fun run_calls :: "call list \<Rightarrow> state \<Rightarrow> exn + state" where
  "run_calls [] s = Inr s"
| "run_calls (c # cs) s = (case run_call c s of Inl e \<Rightarrow> Inl e | Inr s' \<Rightarrow> run_calls cs s')"


section \<open>Instruments\<close>

text \<open>
  An instrument holds its name and tags; the buffer it writes to is the one buffer of the
  registry, passed to each operation as the state. \<open>time.time()\<close> is the argument \<open>now\<close>.
\<close>

record CounterImpl =
  counter_name :: string
  counter_tags :: tags

record GaugeImpl =
  gauge_name :: string
  gauge_tags :: tags
  gauge_value :: real

record HistogramImpl =
  histogram_name :: string
  histogram_tags :: tags

definition CounterImpl_init :: "string \<Rightarrow> tags \<Rightarrow> CounterImpl" where
  "CounterImpl_init name ts = \<lparr>counter_name = name, counter_tags = ts\<rparr>"

definition GaugeImpl_init :: "string \<Rightarrow> tags \<Rightarrow> GaugeImpl" where
  "GaugeImpl_init name ts = \<lparr>gauge_name = name, gauge_tags = ts, gauge_value = 0\<rparr>"

definition HistogramImpl_init :: "string \<Rightarrow> tags \<Rightarrow> HistogramImpl" where
  "HistogramImpl_init name ts = \<lparr>histogram_name = name, histogram_tags = ts\<rparr>"

definition counter_point :: "CounterImpl \<Rightarrow> real \<Rightarrow> real \<Rightarrow> MetricDataPoint" where
  "counter_point self v now =
     \<lparr>dp_name = counter_name self, dp_tags = counter_tags self, dp_value = v,
      dp_timestamp = now, dp_metric_type = ''counter''\<rparr>"

definition gauge_point :: "GaugeImpl \<Rightarrow> real \<Rightarrow> real \<Rightarrow> MetricDataPoint" where
  "gauge_point self v now =
     \<lparr>dp_name = gauge_name self, dp_tags = gauge_tags self, dp_value = v,
      dp_timestamp = now, dp_metric_type = ''gauge''\<rparr>"

definition histogram_point :: "HistogramImpl \<Rightarrow> real \<Rightarrow> real \<Rightarrow> MetricDataPoint" where
  "histogram_point self v now =
     \<lparr>dp_name = histogram_name self, dp_tags = histogram_tags self, dp_value = v,
      dp_timestamp = now, dp_metric_type = ''histogram''\<rparr>"

text \<open>
  \<^verbatim>\<open>
  def add(self, value):
      if value < 0:
          return  # Counters must be monotonic
      self.buffer.add(MetricDataPoint(...))
  \<close>
\<close>

definition CounterImpl_add :: "CounterImpl \<Rightarrow> real \<Rightarrow> real \<Rightarrow> state \<Rightarrow> exn + state" where
  "CounterImpl_add self v now s = (if v < 0 then Inr s else add (counter_point self v now) s)"

definition CounterImpl_inc :: "CounterImpl \<Rightarrow> real \<Rightarrow> state \<Rightarrow> exn + state" where
  "CounterImpl_inc self now s = CounterImpl_add self 1 now s"

text \<open>
  The gauge operations change the gauge first and then write to the buffer, so they return
  the gauge together with the outcome of the write.
\<close>

definition GaugeImpl_set :: "GaugeImpl \<Rightarrow> real \<Rightarrow> real \<Rightarrow> state \<Rightarrow> GaugeImpl \<times> (exn + state)" where
  "GaugeImpl_set self v now s =
     (let self' = self\<lparr>gauge_value := v\<rparr> in (self', add (gauge_point self' v now) s))"

definition GaugeImpl_inc :: "GaugeImpl \<Rightarrow> real \<Rightarrow> state \<Rightarrow> GaugeImpl \<times> (exn + state)" where
  "GaugeImpl_inc self now s =
     (let self' = self\<lparr>gauge_value := gauge_value self + 1\<rparr>;
          v = gauge_value self'
      in (self', add (gauge_point self' v now) s))"

definition GaugeImpl_dec :: "GaugeImpl \<Rightarrow> real \<Rightarrow> state \<Rightarrow> GaugeImpl \<times> (exn + state)" where
  "GaugeImpl_dec self now s =
     (let self' = self\<lparr>gauge_value := gauge_value self - 1\<rparr>;
          v = gauge_value self'
      in (self', add (gauge_point self' v now) s))"

definition HistogramImpl_record :: "HistogramImpl \<Rightarrow> real \<Rightarrow> real \<Rightarrow> state \<Rightarrow> exn + state" where
  "HistogramImpl_record self v now s = add (histogram_point self v now) s"

section \<open>The registry (\<open>MetricsRegistry\<close>)\<close>

text \<open>
  Instruments are objects: the registry's dicts hold references to them. A reference is an
  address into \<open>reg_heap\<close>; \<open>reg_next\<close> is the next address the allocator hands out.
  Two results of \<open>counter\<close> are the same instance exactly when the addresses are equal.
\<close>

type_synonym ref = nat

datatype instrument =
    CounterObj CounterImpl
  | GaugeObj GaugeImpl
  | HistogramObj HistogramImpl

record MetricsRegistry =
  counters :: "string \<rightharpoonup> ref"
  gauges :: "string \<rightharpoonup> ref"
  histograms :: "string \<rightharpoonup> ref"
  reg_heap :: "ref \<rightharpoonup> instrument"
  reg_next :: ref

definition MetricsRegistry_init :: MetricsRegistry where
  "MetricsRegistry_init =
     \<lparr>counters = Map.empty, gauges = Map.empty, histograms = Map.empty,
      reg_heap = Map.empty, reg_next = 0\<rparr>"

definition alloc :: "instrument \<Rightarrow> MetricsRegistry \<Rightarrow> ref \<times> MetricsRegistry" where
  "alloc obj r = (reg_next r, r\<lparr>reg_heap := (reg_heap r)(reg_next r \<mapsto> obj), reg_next := Suc (reg_next r)\<rparr>)"

text \<open>
  \<^verbatim>\<open>
  if tags is None: tags = {}
  key = self._metric_key(name, tags)
  if key in self.counters:
      return self.counters[key]
  with self._lock:
      if key in self.counters:
          return self.counters[key]
      counter = CounterImpl(name, tags.copy(), self.buffer)
      self.counters[key] = counter
      return counter
  \<close>
  Both look-ups are kept, although one thread alone never takes the second return.
\<close>

definition counter :: "string \<Rightarrow> tags option \<Rightarrow> MetricsRegistry \<Rightarrow> ref \<times> MetricsRegistry" where
  "counter name tags_arg r =
     (let ts = (case tags_arg of None \<Rightarrow> [] | Some t \<Rightarrow> t);
          key = metric_key name ts
      in case counters r key of
           Some c \<Rightarrow> (c, r)
         | None \<Rightarrow>
             (case counters r key of
                Some c \<Rightarrow> (c, r)
              | None \<Rightarrow>
                  let (c, r') = alloc (CounterObj (CounterImpl_init name ts)) r
                  in (c, r'\<lparr>counters := (counters r')(key \<mapsto> c)\<rparr>)))"

definition gauge :: "string \<Rightarrow> tags option \<Rightarrow> MetricsRegistry \<Rightarrow> ref \<times> MetricsRegistry" where
  "gauge name tags_arg r =
     (let ts = (case tags_arg of None \<Rightarrow> [] | Some t \<Rightarrow> t);
          key = metric_key name ts
      in case gauges r key of
           Some g \<Rightarrow> (g, r)
         | None \<Rightarrow>
             (case gauges r key of
                Some g \<Rightarrow> (g, r)
              | None \<Rightarrow>
                  let (g, r') = alloc (GaugeObj (GaugeImpl_init name ts)) r
                  in (g, r'\<lparr>gauges := (gauges r')(key \<mapsto> g)\<rparr>)))"

definition histogram :: "string \<Rightarrow> tags option \<Rightarrow> MetricsRegistry \<Rightarrow> ref \<times> MetricsRegistry" where
  "histogram name tags_arg r =
     (let ts = (case tags_arg of None \<Rightarrow> [] | Some t \<Rightarrow> t);
          key = metric_key name ts
      in case histograms r key of
           Some h \<Rightarrow> (h, r)
         | None \<Rightarrow>
             (case histograms r key of
                Some h \<Rightarrow> (h, r)
              | None \<Rightarrow>
                  let (h, r') = alloc (HistogramObj (HistogramImpl_init name ts)) r
                  in (h, r'\<lparr>histograms := (histograms r')(key \<mapsto> h)\<rparr>)))"

section \<open>Attribute normalisation (\<open>TracekitClient._normalize_attributes\<close>)\<close>

text \<open>
  The Python values an attribute can hold. \<open>PyRange a b\<close> is \<open>range(a, b)\<close> and
  \<open>PyBytes\<close> a \<open>bytes\<close> object, two sequence types that are neither \<open>list\<close> nor \<open>tuple\<close>;
  \<open>PyOther\<close> stands for an object of any other class, named by an identifier. A \<open>bool\<close> is an \<open>int\<close> for \<open>isinstance\<close>; both pass the
  first test anyway.
\<close>

datatype pyval =
    PyStr string
  | PyInt int
  | PyFloat real
  | PyBool bool
  | PyList "pyval list"
  | PyTuple "pyval list"
  | PyNone
  | PyDict "(pyval \<times> pyval) list"
  | PyRange int int
  | PyBytes string
  | PyOther string

text \<open>\<open>d[key] = value\<close> on an insertion-ordered dict.\<close>

fun dict_set :: "'k \<Rightarrow> 'v \<Rightarrow> ('k \<times> 'v) list \<Rightarrow> ('k \<times> 'v) list" where
  "dict_set key v [] = [(key, v)]"
| "dict_set key v ((k, x) # rest) =
     (if k = key then (k, v) # rest else (k, x) # dict_set key v rest)"

text \<open>
  \<^verbatim>\<open>
  if isinstance(value, (str, int, float, bool)):
      normalized[key] = value
  elif isinstance(value, (list, tuple)):
      normalized[key] = [str(v) for v in value]
  else:
      normalized[key] = str(value)
  \<close>
  Python's builtin \<open>str\<close> is the parameter \<open>str_of\<close>.
\<close>

fun normalize_value :: "(pyval \<Rightarrow> string) \<Rightarrow> pyval \<Rightarrow> pyval" where
  "normalize_value str_of (PyStr x) = PyStr x"
| "normalize_value str_of (PyInt x) = PyInt x"
| "normalize_value str_of (PyFloat x) = PyFloat x"
| "normalize_value str_of (PyBool x) = PyBool x"
| "normalize_value str_of (PyList vs) = PyList (map (\<lambda>v. PyStr (str_of v)) vs)"
| "normalize_value str_of (PyTuple vs) = PyList (map (\<lambda>v. PyStr (str_of v)) vs)"
| "normalize_value str_of v = PyStr (str_of v)"

definition normalize_attributes :: "(pyval \<Rightarrow> string) \<Rightarrow> (string \<times> pyval) list \<Rightarrow> (string \<times> pyval) list" where
  "normalize_attributes str_of attributes =
     foldl (\<lambda>normalized (key, v). dict_set key (normalize_value str_of v) normalized) [] attributes"

text \<open>
  The kinds of value as the specification names them. A sequence value is any Python
  sequence with its items: a list, a tuple, a range (its integers) or a bytes object (its
  byte values).
\<close>

fun is_primitive :: "pyval \<Rightarrow> bool" where
  "is_primitive (PyStr _) = True"
| "is_primitive (PyInt _) = True"
| "is_primitive (PyFloat _) = True"
| "is_primitive (PyBool _) = True"
| "is_primitive _ = False"

fun sequence_items :: "pyval \<Rightarrow> pyval list option" where
  "sequence_items (PyList vs) = Some vs"
| "sequence_items (PyTuple vs) = Some vs"
| "sequence_items (PyRange a b) = Some (map PyInt [a..b - 1])"
| "sequence_items (PyBytes bs) = Some (map (\<lambda>c. PyInt (int (of_char c))) bs)"
| "sequence_items _ = None"


definition spec_normalize :: "(pyval \<Rightarrow> string) \<Rightarrow> pyval \<Rightarrow> pyval" where
  "spec_normalize str_of v =
     (if is_primitive v then v
      else case sequence_items v of
             Some vs \<Rightarrow> PyList (map (\<lambda>x. PyStr (str_of x)) vs)
           | None \<Rightarrow> PyStr (str_of v))"

text \<open>
  A registry is well formed when every reference stored in one of its dicts points to a live
  object of that kind, no two keys of a dict share a reference, and every live address was
  handed out by the allocator.
\<close>

definition wf_registry :: "MetricsRegistry \<Rightarrow> bool" where
  "wf_registry r \<longleftrightarrow>
     (\<forall>key c. counters r key = Some c \<longrightarrow> (\<exists>obj. reg_heap r c = Some (CounterObj obj)))
   \<and> (\<forall>key g. gauges r key = Some g \<longrightarrow> (\<exists>obj. reg_heap r g = Some (GaugeObj obj)))
   \<and> (\<forall>key h. histograms r key = Some h \<longrightarrow> (\<exists>obj. reg_heap r h = Some (HistogramObj obj)))
   \<and> inj_on (counters r) (dom (counters r))
   \<and> inj_on (gauges r) (dom (gauges r))
   \<and> inj_on (histograms r) (dom (histograms r))
   \<and> (\<forall>a. reg_heap r a \<noteq> None \<longrightarrow> a < reg_next r)"

definition tags_of :: "tags option \<Rightarrow> tags" where
  "tags_of tags_arg = (case tags_arg of None \<Rightarrow> [] | Some t \<Rightarrow> t)"

section \<open>Concrete values for the examples\<close>

text \<open>
  A world in which nothing has happened yet and the collector answers every request with
  the given status code, and a counter point.
\<close>

definition fresh_world :: "nat \<Rightarrow> world" where
  "fresh_world code = \<lparr>export_calls = [], posted = [], stdout = [], net = (\<lambda>_. Status code)\<rparr>"

text \<open>
  The part of Python's \<open>str\<close> that the examples need; it stands in for the parameter
  \<open>str_of\<close> there.
\<close>

fun sample_str :: "pyval \<Rightarrow> string" where
  "sample_str (PyStr x) = x"
| "sample_str (PyInt i) = str_int i"
| "sample_str (PyBool b) = (if b then ''True'' else ''False'')"
| "sample_str PyNone = ''None''"
| "sample_str (PyRange a b) = ''range('' @ str_int a @ '', '' @ str_int b @ '')''"
| "sample_str _ = ''<object>''"

definition req_point :: "real \<Rightarrow> MetricDataPoint" where
  "req_point v =
     \<lparr>dp_name = ''req'', dp_tags = [], dp_value = v, dp_timestamp = 0, dp_metric_type = ''counter''\<rparr>"

section \<open>The buffer: basic facts\<close>

lemma export_calls_export:
  "export_calls (snd (export e dps w)) = export_calls w @ [dps]"
  by (simp add: export_def Let_def split: sum.splits http_outcome.splits)

lemma flush_empty: "buf_data (fst s) = [] \<Longrightarrow> flush s = Inr s"
  by (simp add: flush_def)

lemma flush_nonempty:
  assumes "buf_data b \<noteq> []"
  shows "\<exists>w'. flush (b, w) = Inr (b\<lparr>buf_data := []\<rparr>, w')
              \<and> export_calls w' = export_calls w @ [buf_data b]"
proof (cases "export (buf_exporter b) (buf_data b) w")
  case (Pair res w1)
  then have calls: "export_calls w1 = export_calls w @ [buf_data b]"
    using export_calls_export [of "buf_exporter b" "buf_data b" w] by simp
  show ?thesis
  proof (cases res)
    case (Inl e)
    with Pair assms calls show ?thesis by (simp add: flush_def)
  next
    case (Inr u)
    with Pair assms calls show ?thesis by (simp add: flush_def)
  qed
qed

lemma flush_total: "\<exists>s'. flush s = Inr s'"
proof (cases "buf_data (fst s) = []")
  case True
  then show ?thesis by (simp add: flush_empty)
next
  case False
  then show ?thesis using flush_nonempty [of "fst s" "snd s"] by auto
qed

lemma add_dropped: "buf_shutdown (fst s) \<Longrightarrow> add p s = Inr s"
  by (simp add: add_def)

lemma add_below:
  "\<not> buf_shutdown b \<Longrightarrow> Suc (length (buf_data b)) < buf_max_size b
   \<Longrightarrow> add p (b, w) = Inr (b\<lparr>buf_data := buf_data b @ [p]\<rparr>, w)"
  by (simp add: add_def)

lemma add_reaching:
  assumes "\<not> buf_shutdown b" and "buf_max_size b \<le> Suc (length (buf_data b))"
  shows "\<exists>w'. add p (b, w) = Inr (b\<lparr>buf_data := []\<rparr>, w')
              \<and> export_calls w' = export_calls w @ [buf_data b @ [p]]"
  using assms flush_nonempty [of "b\<lparr>buf_data := buf_data b @ [p]\<rparr>" w]
  by (simp add: add_def)

lemma add_total: "\<exists>s'. add p s = Inr s'"
  using flush_total by (simp add: add_def Let_def)

lemma shutdown_total: "\<exists>s'. shutdown s = Inr s'"
  using flush_total by (simp add: shutdown_def)

lemma flush_loop_round_total: "\<exists>s'. flush_loop_round s = Inr s'"
  using flush_total by (simp add: flush_loop_round_def)

lemma run_call_total: "\<exists>s'. run_call c s = Inr s'"
proof (cases c)
  case (Add p)
  then show ?thesis using add_total [of p s] by simp
next
  case Flush
  then show ?thesis using flush_total [of s] by simp
next
  case Shutdown
  then show ?thesis using shutdown_total [of s] by simp
next
  case WorkerRound
  then show ?thesis using flush_loop_round_total [of s] by simp
qed

lemma run_calls_total: "\<exists>s'. run_calls cs s = Inr s'"
proof (induction cs arbitrary: s)
  case Nil
  show ?case by simp
next
  case (Cons c cs)
  obtain s1 where "run_call c s = Inr s1" using run_call_total by blast
  with Cons show ?case by simp
qed

lemma run_calls_append:
  "run_calls (xs @ ys) s = (case run_calls xs s of Inl e \<Rightarrow> Inl e | Inr s' \<Rightarrow> run_calls ys s')"
  by (induction xs arbitrary: s) (simp_all split: sum.splits)

lemma adds_below:
  "\<not> buf_shutdown b \<Longrightarrow> length (buf_data b) + length ps < buf_max_size b
   \<Longrightarrow> run_calls (map Add ps) (b, w) = Inr (b\<lparr>buf_data := buf_data b @ ps\<rparr>, w)"
proof (induction ps arbitrary: b)
  case Nil
  show ?case by simp
next
  case (Cons p ps)
  have "add p (b, w) = Inr (b\<lparr>buf_data := buf_data b @ [p]\<rparr>, w)"
    using Cons.prems by (simp add: add_below)
  moreover have "run_calls (map Add ps) (b\<lparr>buf_data := buf_data b @ [p]\<rparr>, w)
        = Inr (b\<lparr>buf_data := buf_data b @ [p]\<rparr>\<lparr>buf_data := buf_data (b\<lparr>buf_data := buf_data b @ [p]\<rparr>) @ ps\<rparr>, w)"
    using Cons.prems by (intro Cons.IH) simp_all
  ultimately show ?case by simp
qed

lemma flush_keeps_shutdown: "flush s = Inr s' \<Longrightarrow> buf_shutdown (fst s') = buf_shutdown (fst s)"
  by (auto simp: flush_def Let_def split: if_splits prod.splits sum.splits)

lemma run_call_keeps_shutdown:
  "buf_shutdown (fst s) \<Longrightarrow> run_call c s = Inr s' \<Longrightarrow> buf_shutdown (fst s')"
  by (cases c) (auto simp: add_def shutdown_def flush_loop_round_def Let_def
      dest: flush_keeps_shutdown split: if_splits)

lemma run_calls_keeps_shutdown:
  "buf_shutdown (fst s) \<Longrightarrow> run_calls cs s = Inr s' \<Longrightarrow> buf_shutdown (fst s')"
proof (induction cs arbitrary: s)
  case Nil
  then show ?case by simp
next
  case (Cons c cs)
  then show ?case
    by (auto split: sum.splits dest: run_call_keeps_shutdown)
qed

lemma adds_dropped:
  "buf_shutdown (fst s) \<Longrightarrow> run_calls (map Add qs) s = Inr s"
  by (induction qs) (simp_all add: add_dropped)

section \<open>Instrument keys\<close>

lemma sorted_pairs_permutation:
  assumes "mset T1 = mset T2"
  shows "sort (map tag_pair T1) = sort (map tag_pair T2)"
proof -
  have "mset (map tag_pair T1) = mset (map tag_pair T2)"
    using assms by (metis mset_map)
  then have "mset (sort (map tag_pair T2)) = mset (map tag_pair T1)" by simp
  then show ?thesis
    by (rule properties_for_sort) simp
qed

lemma metric_key_mset:
  assumes "mset T1 = mset T2"
  shows "metric_key name T1 = metric_key name T2"
proof -
  have "T1 = [] \<longleftrightarrow> T2 = []" using assms by (metis mset_zero_iff)
  then show ?thesis
    using sorted_pairs_permutation [OF assms] by (simp add: metric_key_def)
qed

text \<open>
  Claim C6, as stated: the key is the name alone for an empty tag mapping, and otherwise
  \<open>name{k1=v1,...}\<close> with the pairs sorted by key. The code sorts the rendered strings
  \<open>k=v\<close>, not the keys: with the keys \<open>host\<close> and \<open>host2\<close> the pair of \<open>host2\<close> comes
  first, because \<open>2\<close> is below \<open>=\<close>.
\<close>

theorem metric_key_sorted_by_key_counterexample:
  "metric_key ''cpu'' [(''host'', ''a''), (''host2'', ''b'')] = ''cpu{host2=b,host=a}''
   \<and> spec_metric_key ''cpu'' [(''host'', ''a''), (''host2'', ''b'')] = ''cpu{host=a,host2=b}''
   \<and> metric_key ''cpu'' [(''host'', ''a''), (''host2'', ''b'')]
     \<noteq> spec_metric_key ''cpu'' [(''host'', ''a''), (''host2'', ''b'')]"
  by (simp add: metric_key_def spec_metric_key_def tag_pair_def)

text \<open>
  Claim C6, amended: the key is the name alone for an empty tag mapping, and otherwise the
  name followed by \<open>{p1,p2,...}\<close>, where the \<open>p\<close> are the strings \<open>k=v\<close> of the tag pairs,
  sorted lexicographically as whole strings.
\<close>

theorem metric_key_format:
  "(tags = [] \<longrightarrow> metric_key name tags = name)
   \<and> (tags \<noteq> [] \<longrightarrow>
        (\<exists>pairs. metric_key name tags = name @ ''{'' @ join '','' pairs @ ''}''
                 \<and> sorted pairs \<and> mset pairs = mset (map tag_pair tags)))"
proof (intro conjI impI)
  assume "tags = []"
  then show "metric_key name tags = name" by (simp add: metric_key_def)
next
  assume ne: "tags \<noteq> []"
  let ?pairs = "sort (map tag_pair tags)"
  have "metric_key name tags = name @ ''{'' @ join '','' ?pairs @ ''}''"
    using ne by (simp add: metric_key_def)
  moreover have "sorted ?pairs" by simp
  moreover have "mset ?pairs = mset (map tag_pair tags)" by simp
  ultimately show "\<exists>pairs. metric_key name tags = name @ ''{'' @ join '','' pairs @ ''}''
                 \<and> sorted pairs \<and> mset pairs = mset (map tag_pair tags)"
    by blast
qed

theorem metric_key_format_witness:
  "metric_key ''cpu'' [] = ''cpu''
   \<and> [(''host'', ''a''), (''host2'', ''b'')] \<noteq> []
   \<and> (\<exists>pairs. metric_key ''cpu'' [(''host'', ''a''), (''host2'', ''b'')]
                 = ''cpu'' @ ''{'' @ join '','' pairs @ ''}''
              \<and> sorted pairs
              \<and> mset pairs = mset (map tag_pair [(''host'', ''a''), (''host2'', ''b'')]))"
  using metric_key_format [of "[]" "''cpu''"]
        metric_key_format [of "[(''host'', ''a''), (''host2'', ''b'')]" "''cpu''"]
  by simp

text \<open>
  Claim C7: two tag mappings that hold the same key-value pairs, inserted in any order, give
  the same instrument key for the same name.
\<close>

theorem metric_key_order_independent:
  assumes "mset T1 = mset T2"
  shows "metric_key name T1 = metric_key name T2"
proof -
  have empty: "T1 = [] \<longleftrightarrow> T2 = []" using assms by (metis mset_zero_iff)
  have "sort (map tag_pair T1) = sort (map tag_pair T2)"
    using assms by (rule sorted_pairs_permutation)
  with empty show ?thesis by (simp add: metric_key_def)
qed

theorem metric_key_order_independent_witness:
  "mset [(''host'', ''a''), (''region'', ''eu'')] = mset [(''region'', ''eu''), (''host'', ''a'')]
   \<and> metric_key ''cpu'' [(''host'', ''a''), (''region'', ''eu'')]
     = metric_key ''cpu'' [(''region'', ''eu''), (''host'', ''a'')]
   \<and> metric_key ''cpu'' [(''region'', ''eu''), (''host'', ''a'')] = ''cpu{host=a,region=eu}''"
proof -
  have m: "mset [(''host'', ''a''), (''region'', ''eu'')] = mset [(''region'', ''eu''), (''host'', ''a'')]"
    by simp
  have "metric_key ''cpu'' [(''region'', ''eu''), (''host'', ''a'')] = ''cpu{host=a,region=eu}''"
    by (simp add: metric_key_def tag_pair_def)
  then show ?thesis
    using m metric_key_order_independent [OF m, of "''cpu''"] by simp
qed

section \<open>The buffer: flushing on size and on shutdown\<close>

text \<open>
  Claim C2: a buffer with \<open>max_size = 100\<close> that starts empty takes 99 points without any
  call of the exporter (the world is unchanged); the 100th \<open>add\<close> flushes inside the call,
  and that flush is one call of \<open>export\<close> with all 100 points in the order they were added,
  after which the buffer is empty again. Flushing an empty buffer changes nothing.
\<close>

theorem size_triggered_flush:
  assumes "buf_max_size b = 100" and "buf_data b = []" and "\<not> buf_shutdown b"
  shows "(length ps = 99 \<longrightarrow>
            run_calls (map Add ps) (b, w) = Inr (b\<lparr>buf_data := ps\<rparr>, w))
       \<and> (length ps = 99 \<longrightarrow>
            (\<exists>w'. run_calls (map Add (ps @ [p])) (b, w) = Inr (b, w')
                 \<and> export_calls w' = export_calls w @ [ps @ [p]]))
       \<and> flush (b, w) = Inr (b, w)"
proof (intro conjI impI)
  assume len: "length ps = 99"
  show below: "run_calls (map Add ps) (b, w) = Inr (b\<lparr>buf_data := ps\<rparr>, w)"
    using adds_below [of b ps w] assms len by simp
  let ?b = "b\<lparr>buf_data := ps\<rparr>"
  have "\<exists>w'. add p (?b, w) = Inr (?b\<lparr>buf_data := []\<rparr>, w')
              \<and> export_calls w' = export_calls w @ [buf_data ?b @ [p]]"
    using assms len by (intro add_reaching) simp_all
  then obtain w' where "add p (?b, w) = Inr (b, w')"
    and "export_calls w' = export_calls w @ [ps @ [p]]"
    using assms by auto
  then show "\<exists>w'. run_calls (map Add (ps @ [p])) (b, w) = Inr (b, w')
                 \<and> export_calls w' = export_calls w @ [ps @ [p]]"
    using below by (simp add: run_calls_append)
next
  show "flush (b, w) = Inr (b, w)"
    using assms by (simp add: flush_empty)
qed

theorem size_triggered_flush_witness:
  "buf_max_size (MetricsBuffer_init ''http://collector/v1/metrics'' ''key'' ''svc'') = 100
   \<and> buf_data (MetricsBuffer_init ''http://collector/v1/metrics'' ''key'' ''svc'') = []
   \<and> \<not> buf_shutdown (MetricsBuffer_init ''http://collector/v1/metrics'' ''key'' ''svc'')
   \<and> length (replicate 99 (req_point 1)) = 99
   \<and> run_calls (map Add (replicate 99 (req_point 1)))
        (MetricsBuffer_init ''http://collector/v1/metrics'' ''key'' ''svc'', fresh_world 200)
      = Inr ((MetricsBuffer_init ''http://collector/v1/metrics'' ''key'' ''svc'')
               \<lparr>buf_data := replicate 99 (req_point 1)\<rparr>, fresh_world 200)
   \<and> (\<exists>w'. run_calls (map Add (replicate 99 (req_point 1) @ [req_point 2]))
               (MetricsBuffer_init ''http://collector/v1/metrics'' ''key'' ''svc'', fresh_world 200)
             = Inr (MetricsBuffer_init ''http://collector/v1/metrics'' ''key'' ''svc'', w')
           \<and> export_calls w' = [replicate 99 (req_point 1) @ [req_point 2]])"
proof -
  let ?b = "MetricsBuffer_init ''http://collector/v1/metrics'' ''key'' ''svc''"
  have h: "buf_max_size ?b = 100" "buf_data ?b = []" "\<not> buf_shutdown ?b"
    by (simp_all add: MetricsBuffer_init_def)
  have l: "length (replicate 99 (req_point 1)) = 99" by simp
  have e: "export_calls (fresh_world 200) = []" by (simp add: fresh_world_def)
  show ?thesis
    using h l e
      size_triggered_flush [OF h, of "replicate 99 (req_point 1)" "fresh_world 200" "req_point 2"]
    by simp
qed

text \<open>
  Claim C3: after \<open>shutdown\<close>, whatever calls came before and whatever follows, \<open>add\<close>
  returns normally and leaves buffer and world as they were. And when \<open>n\<close> points, fewer
  than \<open>max_size\<close>, were added to an empty buffer, \<open>shutdown\<close> hands exactly these points
  to the exporter in one call (no call when \<open>n = 0\<close>); points added afterwards are not exported.
\<close>

theorem shutdown_drops_and_flushes_once:
  "(\<exists>s'. run_calls (pre @ Shutdown # post) s = Inr s' \<and> add p s' = Inr s')
   \<and> (buf_data b = [] \<and> \<not> buf_shutdown b \<and> length ps < buf_max_size b \<longrightarrow>
        (\<exists>w'. run_calls (map Add ps @ [Shutdown]) (b, w) = Inr (b\<lparr>buf_shutdown := True\<rparr>, w')
             \<and> export_calls w' = export_calls w @ (if ps = [] then [] else [ps])
             \<and> run_calls (map Add ps @ Shutdown # map Add qs) (b, w) = Inr (b\<lparr>buf_shutdown := True\<rparr>, w')))"
proof (intro conjI impI)
  obtain s1 where s1: "run_calls pre s = Inr s1" using run_calls_total by blast
  obtain s2 where s2: "shutdown s1 = Inr s2" using shutdown_total by blast
  obtain s3 where s3: "run_calls post s2 = Inr s3" using run_calls_total by blast
  have "buf_shutdown (fst s2)"
    using s2 flush_keeps_shutdown [of "((fst s1)\<lparr>buf_shutdown := True\<rparr>, snd s1)" s2]
    by (simp add: shutdown_def)
  then have "buf_shutdown (fst s3)" using s3 run_calls_keeps_shutdown by blast
  then have "add p s3 = Inr s3" by (rule add_dropped)
  moreover have "run_calls (pre @ Shutdown # post) s = Inr s3"
    using s1 s2 s3 by (simp add: run_calls_append)
  ultimately show "\<exists>s'. run_calls (pre @ Shutdown # post) s = Inr s' \<and> add p s' = Inr s'"
    by blast
next
  assume fresh: "buf_data b = [] \<and> \<not> buf_shutdown b \<and> length ps < buf_max_size b"
  let ?b1 = "b\<lparr>buf_data := ps\<rparr>"
  let ?b2 = "b\<lparr>buf_shutdown := True\<rparr>"
  have adds: "run_calls (map Add ps) (b, w) = Inr (?b1, w)"
    using adds_below [of b ps w] fresh by simp
  have "\<exists>w'. shutdown (?b1, w) = Inr (?b2, w')
            \<and> export_calls w' = export_calls w @ (if ps = [] then [] else [ps])"
  proof (cases "ps = []")
    case True
    then show ?thesis using fresh by (simp add: shutdown_def flush_empty)
  next
    case False
    have "b\<lparr>buf_shutdown := True, buf_data := []\<rparr> = ?b2"
      using fresh by simp
    with False show ?thesis
      using flush_nonempty [of "?b1\<lparr>buf_shutdown := True\<rparr>" w]
      by (simp add: shutdown_def)
  qed
  then obtain w' where sd: "shutdown (?b1, w) = Inr (?b2, w')"
    and calls: "export_calls w' = export_calls w @ (if ps = [] then [] else [ps])"
    by blast
  have "run_calls (map Add qs) (?b2, w') = Inr (?b2, w')"
    by (simp add: adds_dropped)
  then show "\<exists>w'. run_calls (map Add ps @ [Shutdown]) (b, w) = Inr (?b2, w')
             \<and> export_calls w' = export_calls w @ (if ps = [] then [] else [ps])
             \<and> run_calls (map Add ps @ Shutdown # map Add qs) (b, w) = Inr (?b2, w')"
    using adds sd calls by (simp add: run_calls_append)
qed

theorem shutdown_drops_and_flushes_once_witness:
  "buf_data (MetricsBuffer_init ''http://collector/v1/metrics'' ''key'' ''svc'') = []
   \<and> \<not> buf_shutdown (MetricsBuffer_init ''http://collector/v1/metrics'' ''key'' ''svc'')
   \<and> length (map req_point [1, 2, 3, 4, 5])
       < buf_max_size (MetricsBuffer_init ''http://collector/v1/metrics'' ''key'' ''svc'')
   \<and> (\<exists>w'. run_calls (map Add (map req_point [1, 2, 3, 4, 5]) @ Shutdown # map Add [req_point 6])
               (MetricsBuffer_init ''http://collector/v1/metrics'' ''key'' ''svc'', fresh_world 200)
             = Inr ((MetricsBuffer_init ''http://collector/v1/metrics'' ''key'' ''svc'')
                      \<lparr>buf_shutdown := True\<rparr>, w')
           \<and> export_calls w' = [map req_point [1, 2, 3, 4, 5]])"
proof -
  let ?b = "MetricsBuffer_init ''http://collector/v1/metrics'' ''key'' ''svc''"
  have h: "buf_data ?b = []" "\<not> buf_shutdown ?b" "length (map req_point [1, 2, 3, 4, 5]) < buf_max_size ?b"
    by (simp_all add: MetricsBuffer_init_def)
  have e: "export_calls (fresh_world 200) = []" by (simp add: fresh_world_def)
  show ?thesis
    using h e
      shutdown_drops_and_flushes_once [of "[]" "[]" "(?b, fresh_world 200)" "req_point 6" ?b
        "map req_point [1, 2, 3, 4, 5]" "fresh_world 200" "[req_point 6]"]
    by auto
qed

section \<open>The buffer: a failing export\<close>

lemma export_stdout:
  "stdout (snd (export e dps w)) = stdout w"
  by (simp add: export_def Let_def split: sum.splits http_outcome.splits)

lemma export_req_point_500:
  "fst (export \<lparr>endpoint = ep, api_key = k, service_name = svc\<rparr> [req_point 1] (fresh_world 500))
     = Inl (Exception ''HTTP 500'')"
  by (simp add: export_def to_otlp_def group_points_def group_key_def otlp_metric_def
      split_key_def req_point_def fresh_world_def str_nat.simps)

text \<open>
  Claim C5: \<open>_flush\<close>, \<open>add\<close> and a round of the worker always return normally, whatever
  the exporter does. When \<open>export\<close> raises on a batch, \<open>_flush\<close> still returns: the batch was
  handed to the exporter in that one call, the failure is printed, and the buffer is left
  empty, so the batch is neither kept nor tried again (a second flush does nothing).
\<close>

theorem export_failure_contained:
  "(\<exists>s'. flush s = Inr s') \<and> (\<exists>s'. add p s = Inr s') \<and> (\<exists>s'. flush_loop_round s = Inr s')
   \<and> (buf_data b \<noteq> [] \<and> fst (export (buf_exporter b) (buf_data b) w) = Inl e \<longrightarrow>
        (\<exists>w'. flush (b, w) = Inr (b\<lparr>buf_data := []\<rparr>, w')
             \<and> export_calls w' = export_calls w @ [buf_data b]
             \<and> stdout w' = stdout w @ [''Failed to export metrics: '' @ str_exn e]
             \<and> flush (b\<lparr>buf_data := []\<rparr>, w') = Inr (b\<lparr>buf_data := []\<rparr>, w')))"
proof (intro conjI impI)
  show "\<exists>s'. flush s = Inr s'" by (rule flush_total)
  show "\<exists>s'. add p s = Inr s'" by (rule add_total)
  show "\<exists>s'. flush_loop_round s = Inr s'" by (rule flush_loop_round_total)
next
  assume fails: "buf_data b \<noteq> [] \<and> fst (export (buf_exporter b) (buf_data b) w) = Inl e"
  obtain w1 where ex: "export (buf_exporter b) (buf_data b) w = (Inl e, w1)"
    using fails by (cases "export (buf_exporter b) (buf_data b) w") simp
  let ?w' = "w1\<lparr>stdout := stdout w1 @ [''Failed to export metrics: '' @ str_exn e]\<rparr>"
  have calls: "export_calls w1 = export_calls w @ [buf_data b]"
    using export_calls_export [of "buf_exporter b" "buf_data b" w] ex by simp
  have out: "stdout w1 = stdout w"
    using export_stdout [of "buf_exporter b" "buf_data b" w] ex by simp
  have "flush (b, w) = Inr (b\<lparr>buf_data := []\<rparr>, ?w')"
    using fails ex by (simp add: flush_def)
  moreover have "flush (b\<lparr>buf_data := []\<rparr>, ?w') = Inr (b\<lparr>buf_data := []\<rparr>, ?w')"
    by (simp add: flush_empty)
  ultimately show "\<exists>w'. flush (b, w) = Inr (b\<lparr>buf_data := []\<rparr>, w')
             \<and> export_calls w' = export_calls w @ [buf_data b]
             \<and> stdout w' = stdout w @ [''Failed to export metrics: '' @ str_exn e]
             \<and> flush (b\<lparr>buf_data := []\<rparr>, w') = Inr (b\<lparr>buf_data := []\<rparr>, w')"
    using calls out by simp
qed

theorem export_failure_contained_witness:
  "buf_data ((MetricsBuffer_init ''http://collector/v1/metrics'' ''key'' ''svc'')\<lparr>buf_data := [req_point 1]\<rparr>) \<noteq> []
   \<and> fst (export \<lparr>endpoint = ''http://collector/v1/metrics'', api_key = ''key'', service_name = ''svc''\<rparr>
             [req_point 1] (fresh_world 500)) = Inl (Exception ''HTTP 500'')
   \<and> (\<exists>w'. flush ((MetricsBuffer_init ''http://collector/v1/metrics'' ''key'' ''svc'')\<lparr>buf_data := [req_point 1]\<rparr>,
                    fresh_world 500)
             = Inr (MetricsBuffer_init ''http://collector/v1/metrics'' ''key'' ''svc'', w')
           \<and> export_calls w' = [[req_point 1]]
           \<and> stdout w' = [''Failed to export metrics: HTTP 500''])"
proof -
  let ?init = "MetricsBuffer_init ''http://collector/v1/metrics'' ''key'' ''svc''"
  let ?b = "?init\<lparr>buf_data := [req_point 1]\<rparr>"
  let ?w = "fresh_world 500"
  have ne: "buf_data ?b \<noteq> []" by simp
  have ex_lit: "fst (export \<lparr>endpoint = ''http://collector/v1/metrics'', api_key = ''key'', service_name = ''svc''\<rparr>
             [req_point 1] ?w) = Inl (Exception ''HTTP 500'')"
    by (rule export_req_point_500)
  then have ex: "fst (export (buf_exporter ?b) (buf_data ?b) ?w) = Inl (Exception ''HTTP 500'')"
    by (simp add: MetricsBuffer_init_def)
  have emptied: "?b\<lparr>buf_data := []\<rparr> = ?init" by (simp add: MetricsBuffer_init_def)
  have w: "export_calls ?w = []" "stdout ?w = []"
    by (simp_all add: fresh_world_def)
  note inst = export_failure_contained
    [where b = ?b and w = ?w and e = "Exception ''HTTP 500''" and s = "(?b, ?w)" and p = "req_point 1"]
  from inst ne ex obtain w' where
    f: "flush (?b, ?w) = Inr (?b\<lparr>buf_data := []\<rparr>, w')"
    and c: "export_calls w' = export_calls ?w @ [buf_data ?b]"
    and o: "stdout w' = stdout ?w @ [''Failed to export metrics: '' @ str_exn (Exception ''HTTP 500'')]"
    by blast
  have "flush (?b, ?w) = Inr (?init, w')" using f emptied by simp
  moreover have "export_calls w' = [[req_point 1]]" using c w by simp
  moreover have "stdout w' = [''Failed to export metrics: HTTP 500'']"
    using o w by (simp add: str_exn_def)
  ultimately have "\<exists>w'. flush (?b, ?w) = Inr (?init, w')
           \<and> export_calls w' = [[req_point 1]]
           \<and> stdout w' = [''Failed to export metrics: HTTP 500'']"
    by blast
  with ne ex_lit show ?thesis by blast
qed

section \<open>Instruments\<close>

text \<open>
  Claim C4: \<open>Counter.add(v)\<close> with \<open>v < 0\<close> returns normally and leaves buffer and world
  unchanged; with \<open>v \<ge> 0\<close> it is exactly one \<open>buffer.add\<close> of a point of kind counter with
  value \<open>v\<close>, which in a running buffer with room appends that one point. So \<open>add(-5)\<close>
  followed by \<open>add(3)\<close> records one point, with value 3.
\<close>

theorem counter_add_negative_noop:
  "(v < 0 \<longrightarrow> CounterImpl_add c v now s = Inr s)
   \<and> (0 \<le> v \<longrightarrow> CounterImpl_add c v now s = add (counter_point c v now) s
                 \<and> dp_value (counter_point c v now) = v
                 \<and> dp_metric_type (counter_point c v now) = ''counter'')
   \<and> (0 \<le> v \<and> \<not> buf_shutdown b \<and> Suc (length (buf_data b)) < buf_max_size b \<longrightarrow>
        CounterImpl_add c v now (b, w) = Inr (b\<lparr>buf_data := buf_data b @ [counter_point c v now]\<rparr>, w))
   \<and> (\<not> buf_shutdown b \<and> Suc (length (buf_data b)) < buf_max_size b \<longrightarrow>
        (\<exists>s1. CounterImpl_add c (- 5) ta (b, w) = Inr s1
             \<and> CounterImpl_add c 3 tb s1
                 = Inr (b\<lparr>buf_data := buf_data b @ [counter_point c 3 tb]\<rparr>, w)))"
  by (simp add: CounterImpl_add_def add_below counter_point_def)

theorem counter_add_negative_noop_witness:
  "(- 5 :: real) < 0
   \<and> CounterImpl_add (CounterImpl_init ''req'' []) (- 5) 10
        (MetricsBuffer_init ''http://collector/v1/metrics'' ''key'' ''svc'', fresh_world 200)
      = Inr (MetricsBuffer_init ''http://collector/v1/metrics'' ''key'' ''svc'', fresh_world 200)
   \<and> \<not> buf_shutdown (MetricsBuffer_init ''http://collector/v1/metrics'' ''key'' ''svc'')
   \<and> Suc (length (buf_data (MetricsBuffer_init ''http://collector/v1/metrics'' ''key'' ''svc'')))
        < buf_max_size (MetricsBuffer_init ''http://collector/v1/metrics'' ''key'' ''svc'')
   \<and> (0 :: real) \<le> 3
   \<and> CounterImpl_add (CounterImpl_init ''req'' []) 3 11
        (MetricsBuffer_init ''http://collector/v1/metrics'' ''key'' ''svc'', fresh_world 200)
      = Inr ((MetricsBuffer_init ''http://collector/v1/metrics'' ''key'' ''svc'')
               \<lparr>buf_data := [counter_point (CounterImpl_init ''req'' []) 3 11]\<rparr>, fresh_world 200)
   \<and> dp_value (counter_point (CounterImpl_init ''req'' []) 3 11) = 3"
proof -
  let ?b = "MetricsBuffer_init ''http://collector/v1/metrics'' ''key'' ''svc''"
  let ?w = "fresh_world 200"
  let ?c = "CounterImpl_init ''req'' []"
  have neg: "(- 5 :: real) < 0" by simp
  have pos: "(0 :: real) \<le> 3" by simp
  have room: "\<not> buf_shutdown ?b \<and> Suc (length (buf_data ?b)) < buf_max_size ?b"
    by (simp add: MetricsBuffer_init_def)
  have empty: "buf_data ?b = []" by (simp add: MetricsBuffer_init_def)
  note neg_case = counter_add_negative_noop
    [where v = "- 5" and c = ?c and now = 10 and s = "(?b, ?w)" and b = ?b and w = ?w]
  note pos_case = counter_add_negative_noop
    [where v = 3 and c = ?c and now = 11 and s = "(?b, ?w)" and b = ?b and w = ?w]
  have dropped: "CounterImpl_add ?c (- 5) 10 (?b, ?w) = Inr (?b, ?w)"
    using neg_case neg by blast
  have kept: "CounterImpl_add ?c 3 11 (?b, ?w)
      = Inr (?b\<lparr>buf_data := buf_data ?b @ [counter_point ?c 3 11]\<rparr>, ?w)"
    using pos_case pos room by blast
  have val: "dp_value (counter_point ?c 3 11) = 3"
    using pos_case pos by blast
  show ?thesis
    using neg pos room dropped kept val empty by simp
qed

text \<open>
  Claim C10: a newly constructed gauge holds 0, so its first \<open>inc()\<close> writes a point with
  value 1 and its first \<open>dec()\<close> a point with value -1, without any \<open>set()\<close> before; on a
  new buffer that point is recorded.
\<close>

theorem fresh_gauge_starts_at_zero:
  "gauge_value (GaugeImpl_init name ts) = 0
   \<and> GaugeImpl_inc (GaugeImpl_init name ts) now s
       = (\<lparr>gauge_name = name, gauge_tags = ts, gauge_value = 1\<rparr>,
          add \<lparr>dp_name = name, dp_tags = ts, dp_value = 1, dp_timestamp = now,
               dp_metric_type = ''gauge''\<rparr> s)
   \<and> GaugeImpl_dec (GaugeImpl_init name ts) now s
       = (\<lparr>gauge_name = name, gauge_tags = ts, gauge_value = - 1\<rparr>,
          add \<lparr>dp_name = name, dp_tags = ts, dp_value = - 1, dp_timestamp = now,
               dp_metric_type = ''gauge''\<rparr> s)
   \<and> snd (GaugeImpl_inc (GaugeImpl_init name ts) now (MetricsBuffer_init ep k svc, w))
       = Inr ((MetricsBuffer_init ep k svc)
                \<lparr>buf_data := [\<lparr>dp_name = name, dp_tags = ts, dp_value = 1, dp_timestamp = now,
                                 dp_metric_type = ''gauge''\<rparr>]\<rparr>, w)
   \<and> snd (GaugeImpl_dec (GaugeImpl_init name ts) now (MetricsBuffer_init ep k svc, w))
       = Inr ((MetricsBuffer_init ep k svc)
                \<lparr>buf_data := [\<lparr>dp_name = name, dp_tags = ts, dp_value = - 1, dp_timestamp = now,
                                 dp_metric_type = ''gauge''\<rparr>]\<rparr>, w)"
proof (intro conjI)
  show "gauge_value (GaugeImpl_init name ts) = 0"
    by (simp add: GaugeImpl_init_def)
  show "GaugeImpl_inc (GaugeImpl_init name ts) now s
       = (\<lparr>gauge_name = name, gauge_tags = ts, gauge_value = 1\<rparr>,
          add \<lparr>dp_name = name, dp_tags = ts, dp_value = 1, dp_timestamp = now,
               dp_metric_type = ''gauge''\<rparr> s)"
    by (simp add: GaugeImpl_init_def GaugeImpl_inc_def gauge_point_def Let_def)
  show "GaugeImpl_dec (GaugeImpl_init name ts) now s
       = (\<lparr>gauge_name = name, gauge_tags = ts, gauge_value = - 1\<rparr>,
          add \<lparr>dp_name = name, dp_tags = ts, dp_value = - 1, dp_timestamp = now,
               dp_metric_type = ''gauge''\<rparr> s)"
    by (simp add: GaugeImpl_init_def GaugeImpl_dec_def gauge_point_def Let_def)
  have room: "\<not> buf_shutdown (MetricsBuffer_init ep k svc)"
    "Suc (length (buf_data (MetricsBuffer_init ep k svc))) < buf_max_size (MetricsBuffer_init ep k svc)"
    "buf_data (MetricsBuffer_init ep k svc) = []"
    by (simp_all add: MetricsBuffer_init_def)
  show "snd (GaugeImpl_inc (GaugeImpl_init name ts) now (MetricsBuffer_init ep k svc, w))
       = Inr ((MetricsBuffer_init ep k svc)
                \<lparr>buf_data := [\<lparr>dp_name = name, dp_tags = ts, dp_value = 1, dp_timestamp = now,
                                 dp_metric_type = ''gauge''\<rparr>]\<rparr>, w)"
    using room by (simp add: GaugeImpl_init_def GaugeImpl_inc_def gauge_point_def Let_def add_below)
  show "snd (GaugeImpl_dec (GaugeImpl_init name ts) now (MetricsBuffer_init ep k svc, w))
       = Inr ((MetricsBuffer_init ep k svc)
                \<lparr>buf_data := [\<lparr>dp_name = name, dp_tags = ts, dp_value = - 1, dp_timestamp = now,
                                 dp_metric_type = ''gauge''\<rparr>]\<rparr>, w)"
    using room by (simp add: GaugeImpl_init_def GaugeImpl_dec_def gauge_point_def Let_def add_below)
qed

section \<open>The registry\<close>

lemma wf_registry_init: "wf_registry MetricsRegistry_init"
  by (simp add: wf_registry_def MetricsRegistry_init_def)

lemma counter_hit:
  "counters r (metric_key name (tags_of a)) = Some c \<Longrightarrow> counter name a r = (c, r)"
  by (simp add: counter_def tags_of_def Let_def)

lemma counter_miss:
  "counters r (metric_key name (tags_of a)) = None \<Longrightarrow>
   counter name a r =
     (reg_next r,
      r\<lparr>reg_heap := (reg_heap r)(reg_next r \<mapsto> CounterObj (CounterImpl_init name (tags_of a))),
        reg_next := Suc (reg_next r),
        counters := (counters r)(metric_key name (tags_of a) \<mapsto> reg_next r)\<rparr>)"
  by (simp add: counter_def alloc_def tags_of_def Let_def)

lemma gauge_hit:
  "gauges r (metric_key name (tags_of a)) = Some g \<Longrightarrow> gauge name a r = (g, r)"
  by (simp add: gauge_def tags_of_def Let_def)

lemma gauge_miss:
  "gauges r (metric_key name (tags_of a)) = None \<Longrightarrow>
   gauge name a r =
     (reg_next r,
      r\<lparr>reg_heap := (reg_heap r)(reg_next r \<mapsto> GaugeObj (GaugeImpl_init name (tags_of a))),
        reg_next := Suc (reg_next r),
        gauges := (gauges r)(metric_key name (tags_of a) \<mapsto> reg_next r)\<rparr>)"
  by (simp add: gauge_def alloc_def tags_of_def Let_def)

lemma histogram_hit:
  "histograms r (metric_key name (tags_of a)) = Some h \<Longrightarrow> histogram name a r = (h, r)"
  by (simp add: histogram_def tags_of_def Let_def)

lemma histogram_miss:
  "histograms r (metric_key name (tags_of a)) = None \<Longrightarrow>
   histogram name a r =
     (reg_next r,
      r\<lparr>reg_heap := (reg_heap r)(reg_next r \<mapsto> HistogramObj (HistogramImpl_init name (tags_of a))),
        reg_next := Suc (reg_next r),
        histograms := (histograms r)(metric_key name (tags_of a) \<mapsto> reg_next r)\<rparr>)"
  by (simp add: histogram_def alloc_def tags_of_def Let_def)

lemma fresh_address: "wf_registry r \<Longrightarrow> reg_heap r (reg_next r) = None"
  by (auto simp: wf_registry_def)

lemma stored_below_next:
  assumes "wf_registry r"
  shows "counters r k = Some c \<Longrightarrow> c < reg_next r"
    and "gauges r k = Some c \<Longrightarrow> c < reg_next r"
    and "histograms r k = Some c \<Longrightarrow> c < reg_next r"
  using assms unfolding wf_registry_def by (metis option.distinct(1))+

lemma inj_on_map_upd_fresh:
  assumes "inj_on m (dom m)" and "\<And>k. m k \<noteq> Some v"
  shows "inj_on (m(key \<mapsto> v)) (dom (m(key \<mapsto> v)))"
  using assms by (auto simp: inj_on_def dom_def split: if_splits)

lemma wf_counter_miss:
  assumes wf: "wf_registry r"
  shows "wf_registry (r\<lparr>reg_heap := (reg_heap r)(reg_next r \<mapsto> CounterObj obj),
        reg_next := Suc (reg_next r),
        counters := (counters r)(key \<mapsto> reg_next r)\<rparr>)"
proof -
  have below: "\<And>k c. counters r k = Some c \<Longrightarrow> c \<noteq> reg_next r"
    "\<And>k c. gauges r k = Some c \<Longrightarrow> c \<noteq> reg_next r"
    "\<And>k c. histograms r k = Some c \<Longrightarrow> c \<noteq> reg_next r"
    using stored_below_next [OF wf] by fastforce+
  have inj: "inj_on ((counters r)(key \<mapsto> reg_next r)) (dom ((counters r)(key \<mapsto> reg_next r)))"
    using wf below(1) by (intro inj_on_map_upd_fresh) (auto simp: wf_registry_def)
  have live: "\<And>a. ((reg_heap r)(reg_next r \<mapsto> CounterObj obj)) a \<noteq> None \<Longrightarrow> a < Suc (reg_next r)"
    using wf by (auto simp: wf_registry_def less_Suc_eq split: if_splits)
  show ?thesis
    unfolding wf_registry_def
    using wf below inj live
    by (simp add: wf_registry_def) 
qed

lemma wf_gauge_miss:
  assumes wf: "wf_registry r"
  shows "wf_registry (r\<lparr>reg_heap := (reg_heap r)(reg_next r \<mapsto> GaugeObj obj),
        reg_next := Suc (reg_next r),
        gauges := (gauges r)(key \<mapsto> reg_next r)\<rparr>)"
proof -
  have below: "\<And>k c. counters r k = Some c \<Longrightarrow> c \<noteq> reg_next r"
    "\<And>k c. gauges r k = Some c \<Longrightarrow> c \<noteq> reg_next r"
    "\<And>k c. histograms r k = Some c \<Longrightarrow> c \<noteq> reg_next r"
    using stored_below_next [OF wf] by fastforce+
  have inj: "inj_on ((gauges r)(key \<mapsto> reg_next r)) (dom ((gauges r)(key \<mapsto> reg_next r)))"
    using wf below(2) by (intro inj_on_map_upd_fresh) (auto simp: wf_registry_def)
  have live: "\<And>a. ((reg_heap r)(reg_next r \<mapsto> GaugeObj obj)) a \<noteq> None \<Longrightarrow> a < Suc (reg_next r)"
    using wf by (auto simp: wf_registry_def less_Suc_eq split: if_splits)
  show ?thesis
    unfolding wf_registry_def
    using wf below inj live
    by (simp add: wf_registry_def)
qed

lemma wf_histogram_miss:
  assumes wf: "wf_registry r"
  shows "wf_registry (r\<lparr>reg_heap := (reg_heap r)(reg_next r \<mapsto> HistogramObj obj),
        reg_next := Suc (reg_next r),
        histograms := (histograms r)(key \<mapsto> reg_next r)\<rparr>)"
proof -
  have below: "\<And>k c. counters r k = Some c \<Longrightarrow> c \<noteq> reg_next r"
    "\<And>k c. gauges r k = Some c \<Longrightarrow> c \<noteq> reg_next r"
    "\<And>k c. histograms r k = Some c \<Longrightarrow> c \<noteq> reg_next r"
    using stored_below_next [OF wf] by fastforce+
  have inj: "inj_on ((histograms r)(key \<mapsto> reg_next r)) (dom ((histograms r)(key \<mapsto> reg_next r)))"
    using wf below(3) by (intro inj_on_map_upd_fresh) (auto simp: wf_registry_def)
  have live: "\<And>a. ((reg_heap r)(reg_next r \<mapsto> HistogramObj obj)) a \<noteq> None \<Longrightarrow> a < Suc (reg_next r)"
    using wf by (auto simp: wf_registry_def less_Suc_eq split: if_splits)
  show ?thesis
    unfolding wf_registry_def
    using wf below inj live
    by (simp add: wf_registry_def)
qed

lemma counter_get_or_create:
  assumes wf: "wf_registry r"
    and key: "metric_key name (tags_of a1) = metric_key name (tags_of a2)"
  shows "case counter name a1 r of (c1, r1) \<Rightarrow>
           (case counter name a2 r1 of (c2, r2) \<Rightarrow>
              c1 = c2 \<and> r2 = r1
              \<and> counters r1 (metric_key name (tags_of a1)) = Some c1
              \<and> (\<exists>obj. reg_heap r1 c1 = Some (CounterObj obj))
              \<and> (case counters r (metric_key name (tags_of a1)) of
                    Some c \<Rightarrow> c1 = c \<and> r1 = r
                  | None \<Rightarrow> reg_heap r c1 = None
                      \<and> reg_heap r1 = (reg_heap r)(c1 \<mapsto> CounterObj (CounterImpl_init name (tags_of a1))))
              \<and> (\<forall>k. k \<noteq> metric_key name (tags_of a1) \<longrightarrow>
                    counters r1 k = counters r k \<and> counters r1 k \<noteq> Some c1)
              \<and> dom (counters r1) = insert (metric_key name (tags_of a1)) (dom (counters r))
              \<and> gauges r1 = gauges r \<and> histograms r1 = histograms r
              \<and> wf_registry r1)"
proof (cases "counters r (metric_key name (tags_of a1))")
  case (Some c)
  have first: "counter name a1 r = (c, r)" using Some by (rule counter_hit)
  have second: "counter name a2 r = (c, r)" using Some key by (simp add: counter_hit)
  have live: "\<exists>obj. reg_heap r c = Some (CounterObj obj)"
    using wf Some unfolding wf_registry_def by blast
  have others: "counters r k \<noteq> Some c" if "k \<noteq> metric_key name (tags_of a1)" for k
  proof
    assume "counters r k = Some c"
    moreover have "inj_on (counters r) (dom (counters r))" using wf by (simp add: wf_registry_def)
    ultimately have "k = metric_key name (tags_of a1)"
      using Some by (auto simp: inj_on_def dom_def)
    with that show False by simp
  qed
  have "dom (counters r) = insert (metric_key name (tags_of a1)) (dom (counters r))"
    using Some by auto
  then show ?thesis
    using first second Some live others wf by simp
next
  case None
  let ?K = "metric_key name (tags_of a1)"
  let ?r1 = "r\<lparr>reg_heap := (reg_heap r)(reg_next r \<mapsto> CounterObj (CounterImpl_init name (tags_of a1))),
        reg_next := Suc (reg_next r),
        counters := (counters r)(?K \<mapsto> reg_next r)\<rparr>"
  have first: "counter name a1 r = (reg_next r, ?r1)" using None by (rule counter_miss)
  have "counters ?r1 (metric_key name (tags_of a2)) = Some (reg_next r)" using key by simp
  then have second: "counter name a2 ?r1 = (reg_next r, ?r1)" by (rule counter_hit)
  have fresh: "reg_heap r (reg_next r) = None" using wf by (rule fresh_address)
  have others: "counters r k \<noteq> Some (reg_next r)" for k
    using stored_below_next(1) [OF wf, of k "reg_next r"] by auto
  have wf1: "wf_registry ?r1" using wf by (rule wf_counter_miss)
  show ?thesis
    using first second None fresh others wf1 by simp
qed

lemma gauge_get_or_create:
  assumes wf: "wf_registry r"
    and key: "metric_key name (tags_of a1) = metric_key name (tags_of a2)"
  shows "case gauge name a1 r of (g1, r1) \<Rightarrow>
           (case gauge name a2 r1 of (g2, r2) \<Rightarrow>
              g1 = g2 \<and> r2 = r1
              \<and> gauges r1 (metric_key name (tags_of a1)) = Some g1
              \<and> (\<exists>obj. reg_heap r1 g1 = Some (GaugeObj obj))
              \<and> (case gauges r (metric_key name (tags_of a1)) of
                    Some g \<Rightarrow> g1 = g \<and> r1 = r
                  | None \<Rightarrow> reg_heap r g1 = None
                      \<and> reg_heap r1 = (reg_heap r)(g1 \<mapsto> GaugeObj (GaugeImpl_init name (tags_of a1))))
              \<and> (\<forall>k. k \<noteq> metric_key name (tags_of a1) \<longrightarrow>
                    gauges r1 k = gauges r k \<and> gauges r1 k \<noteq> Some g1)
              \<and> dom (gauges r1) = insert (metric_key name (tags_of a1)) (dom (gauges r))
              \<and> counters r1 = counters r \<and> histograms r1 = histograms r
              \<and> wf_registry r1)"
proof (cases "gauges r (metric_key name (tags_of a1))")
  case (Some c)
  have first: "gauge name a1 r = (c, r)" using Some by (rule gauge_hit)
  have second: "gauge name a2 r = (c, r)" using Some key by (simp add: gauge_hit)
  have live: "\<exists>obj. reg_heap r c = Some (GaugeObj obj)"
    using wf Some unfolding wf_registry_def by blast
  have others: "gauges r k \<noteq> Some c" if "k \<noteq> metric_key name (tags_of a1)" for k
  proof
    assume "gauges r k = Some c"
    moreover have "inj_on (gauges r) (dom (gauges r))" using wf by (simp add: wf_registry_def)
    ultimately have "k = metric_key name (tags_of a1)"
      using Some by (auto simp: inj_on_def dom_def)
    with that show False by simp
  qed
  have "dom (gauges r) = insert (metric_key name (tags_of a1)) (dom (gauges r))"
    using Some by auto
  then show ?thesis
    using first second Some live others wf by simp
next
  case None
  let ?K = "metric_key name (tags_of a1)"
  let ?r1 = "r\<lparr>reg_heap := (reg_heap r)(reg_next r \<mapsto> GaugeObj (GaugeImpl_init name (tags_of a1))),
        reg_next := Suc (reg_next r),
        gauges := (gauges r)(?K \<mapsto> reg_next r)\<rparr>"
  have first: "gauge name a1 r = (reg_next r, ?r1)" using None by (rule gauge_miss)
  have "gauges ?r1 (metric_key name (tags_of a2)) = Some (reg_next r)" using key by simp
  then have second: "gauge name a2 ?r1 = (reg_next r, ?r1)" by (rule gauge_hit)
  have fresh: "reg_heap r (reg_next r) = None" using wf by (rule fresh_address)
  have others: "gauges r k \<noteq> Some (reg_next r)" for k
    using stored_below_next(2) [OF wf, of k "reg_next r"] by auto
  have wf1: "wf_registry ?r1" using wf by (rule wf_gauge_miss)
  show ?thesis
    using first second None fresh others wf1 by simp
qed

lemma histogram_get_or_create:
  assumes wf: "wf_registry r"
    and key: "metric_key name (tags_of a1) = metric_key name (tags_of a2)"
  shows "case histogram name a1 r of (h1, r1) \<Rightarrow>
           (case histogram name a2 r1 of (h2, r2) \<Rightarrow>
              h1 = h2 \<and> r2 = r1
              \<and> histograms r1 (metric_key name (tags_of a1)) = Some h1
              \<and> (\<exists>obj. reg_heap r1 h1 = Some (HistogramObj obj))
              \<and> (case histograms r (metric_key name (tags_of a1)) of
                    Some h \<Rightarrow> h1 = h \<and> r1 = r
                  | None \<Rightarrow> reg_heap r h1 = None
                      \<and> reg_heap r1 = (reg_heap r)(h1 \<mapsto> HistogramObj (HistogramImpl_init name (tags_of a1))))
              \<and> (\<forall>k. k \<noteq> metric_key name (tags_of a1) \<longrightarrow>
                    histograms r1 k = histograms r k \<and> histograms r1 k \<noteq> Some h1)
              \<and> dom (histograms r1) = insert (metric_key name (tags_of a1)) (dom (histograms r))
              \<and> counters r1 = counters r \<and> gauges r1 = gauges r
              \<and> wf_registry r1)"
proof (cases "histograms r (metric_key name (tags_of a1))")
  case (Some c)
  have first: "histogram name a1 r = (c, r)" using Some by (rule histogram_hit)
  have second: "histogram name a2 r = (c, r)" using Some key by (simp add: histogram_hit)
  have live: "\<exists>obj. reg_heap r c = Some (HistogramObj obj)"
    using wf Some unfolding wf_registry_def by blast
  have others: "histograms r k \<noteq> Some c" if "k \<noteq> metric_key name (tags_of a1)" for k
  proof
    assume "histograms r k = Some c"
    moreover have "inj_on (histograms r) (dom (histograms r))" using wf by (simp add: wf_registry_def)
    ultimately have "k = metric_key name (tags_of a1)"
      using Some by (auto simp: inj_on_def dom_def)
    with that show False by simp
  qed
  have "dom (histograms r) = insert (metric_key name (tags_of a1)) (dom (histograms r))"
    using Some by auto
  then show ?thesis
    using first second Some live others wf by simp
next
  case None
  let ?K = "metric_key name (tags_of a1)"
  let ?r1 = "r\<lparr>reg_heap := (reg_heap r)(reg_next r \<mapsto> HistogramObj (HistogramImpl_init name (tags_of a1))),
        reg_next := Suc (reg_next r),
        histograms := (histograms r)(?K \<mapsto> reg_next r)\<rparr>"
  have first: "histogram name a1 r = (reg_next r, ?r1)" using None by (rule histogram_miss)
  have "histograms ?r1 (metric_key name (tags_of a2)) = Some (reg_next r)" using key by simp
  then have second: "histogram name a2 ?r1 = (reg_next r, ?r1)" by (rule histogram_hit)
  have fresh: "reg_heap r (reg_next r) = None" using wf by (rule fresh_address)
  have others: "histograms r k \<noteq> Some (reg_next r)" for k
    using stored_below_next(3) [OF wf, of k "reg_next r"] by auto
  have wf1: "wf_registry ?r1" using wf by (rule wf_histogram_miss)
  show ?thesis
    using first second None fresh others wf1 by simp
qed

text \<open>
  Claim C8: for each kind of instrument, two calls of the registry's get-or-create on a well
  formed registry, with the same name and tag mappings that hold the same pairs (in any
  order, \<open>None\<close> counting as empty), return the same reference, and that reference is the one
  stored under the key and points to a live object of the kind. When the key was already
  there the first call returns the stored reference and changes nothing; otherwise it
  returns an address that was free before and now holds the new instrument, the rest of the
  object store being untouched. The second call allocates nothing and leaves the registry as
  it was. The map of that kind gains at most the one entry for the key, no other key shares
  the reference, the maps of the other kinds are unchanged, and the registry stays well formed.
\<close>

theorem get_or_create_same_instance:
  assumes "wf_registry r" and "mset (tags_of a1) = mset (tags_of a2)"
  shows "(case counter name a1 r of (c1, r1) \<Rightarrow>
           (case counter name a2 r1 of (c2, r2) \<Rightarrow>
              c1 = c2 \<and> r2 = r1
              \<and> counters r1 (metric_key name (tags_of a1)) = Some c1
              \<and> (\<exists>obj. reg_heap r1 c1 = Some (CounterObj obj))
              \<and> (case counters r (metric_key name (tags_of a1)) of
                    Some c \<Rightarrow> c1 = c \<and> r1 = r
                  | None \<Rightarrow> reg_heap r c1 = None
                      \<and> reg_heap r1 = (reg_heap r)(c1 \<mapsto> CounterObj (CounterImpl_init name (tags_of a1))))
              \<and> (\<forall>k. k \<noteq> metric_key name (tags_of a1) \<longrightarrow>
                    counters r1 k = counters r k \<and> counters r1 k \<noteq> Some c1)
              \<and> dom (counters r1) = insert (metric_key name (tags_of a1)) (dom (counters r))
              \<and> gauges r1 = gauges r \<and> histograms r1 = histograms r
              \<and> wf_registry r1))
       \<and> (case gauge name a1 r of (g1, r1) \<Rightarrow>
           (case gauge name a2 r1 of (g2, r2) \<Rightarrow>
              g1 = g2 \<and> r2 = r1
              \<and> gauges r1 (metric_key name (tags_of a1)) = Some g1
              \<and> (\<exists>obj. reg_heap r1 g1 = Some (GaugeObj obj))
              \<and> (case gauges r (metric_key name (tags_of a1)) of
                    Some g \<Rightarrow> g1 = g \<and> r1 = r
                  | None \<Rightarrow> reg_heap r g1 = None
                      \<and> reg_heap r1 = (reg_heap r)(g1 \<mapsto> GaugeObj (GaugeImpl_init name (tags_of a1))))
              \<and> (\<forall>k. k \<noteq> metric_key name (tags_of a1) \<longrightarrow>
                    gauges r1 k = gauges r k \<and> gauges r1 k \<noteq> Some g1)
              \<and> dom (gauges r1) = insert (metric_key name (tags_of a1)) (dom (gauges r))
              \<and> counters r1 = counters r \<and> histograms r1 = histograms r
              \<and> wf_registry r1))
       \<and> (case histogram name a1 r of (h1, r1) \<Rightarrow>
           (case histogram name a2 r1 of (h2, r2) \<Rightarrow>
              h1 = h2 \<and> r2 = r1
              \<and> histograms r1 (metric_key name (tags_of a1)) = Some h1
              \<and> (\<exists>obj. reg_heap r1 h1 = Some (HistogramObj obj))
              \<and> (case histograms r (metric_key name (tags_of a1)) of
                    Some h \<Rightarrow> h1 = h \<and> r1 = r
                  | None \<Rightarrow> reg_heap r h1 = None
                      \<and> reg_heap r1 = (reg_heap r)(h1 \<mapsto> HistogramObj (HistogramImpl_init name (tags_of a1))))
              \<and> (\<forall>k. k \<noteq> metric_key name (tags_of a1) \<longrightarrow>
                    histograms r1 k = histograms r k \<and> histograms r1 k \<noteq> Some h1)
              \<and> dom (histograms r1) = insert (metric_key name (tags_of a1)) (dom (histograms r))
              \<and> counters r1 = counters r \<and> gauges r1 = gauges r
              \<and> wf_registry r1))"
proof -
  have key: "metric_key name (tags_of a1) = metric_key name (tags_of a2)"
    using assms(2) by (rule metric_key_mset)
  show ?thesis
    using counter_get_or_create [OF assms(1) key]
          gauge_get_or_create [OF assms(1) key]
          histogram_get_or_create [OF assms(1) key]
    by (intro conjI)
qed

theorem get_or_create_same_instance_witness:
  "wf_registry MetricsRegistry_init
   \<and> mset (tags_of (Some [(''host'', ''a''), (''region'', ''eu'')]))
     = mset (tags_of (Some [(''region'', ''eu''), (''host'', ''a'')]))
   \<and> (case counter ''cpu'' (Some [(''host'', ''a''), (''region'', ''eu'')]) MetricsRegistry_init of
        (c1, r1) \<Rightarrow>
          (case counter ''cpu'' (Some [(''region'', ''eu''), (''host'', ''a'')]) r1 of
             (c2, r2) \<Rightarrow> c1 = c2 \<and> r2 = r1
               \<and> counters r1 ''cpu{host=a,region=eu}'' = Some c1
               \<and> reg_heap r1 c1
                   = Some (CounterObj (CounterImpl_init ''cpu'' [(''host'', ''a''), (''region'', ''eu'')]))
               \<and> dom (counters r1) = {''cpu{host=a,region=eu}''}
               \<and> wf_registry r1))"
proof -
  let ?a1 = "Some [(''host'', ''a''), (''region'', ''eu'')]"
  let ?a2 = "Some [(''region'', ''eu''), (''host'', ''a'')]"
  have wf: "wf_registry MetricsRegistry_init"
    by (simp add: wf_registry_def MetricsRegistry_init_def)
  have m: "mset (tags_of ?a1) = mset (tags_of ?a2)"
    by (simp add: tags_of_def)
  have k: "metric_key ''cpu'' [(''host'', ''a''), (''region'', ''eu'')] = ''cpu{host=a,region=eu}''"
    by (simp add: metric_key_def tag_pair_def)
  have t: "tags_of ?a1 = [(''host'', ''a''), (''region'', ''eu'')]"
    by (simp add: tags_of_def)
  have e: "counters MetricsRegistry_init ''cpu{host=a,region=eu}'' = None"
    "dom (counters MetricsRegistry_init) = {}"
    by (simp_all add: MetricsRegistry_init_def)
  note inst = get_or_create_same_instance [OF wf m, of "''cpu''", THEN conjunct1, unfolded t k e]
  obtain c1 r1 where first: "counter ''cpu'' ?a1 MetricsRegistry_init = (c1, r1)"
    by (cases "counter ''cpu'' ?a1 MetricsRegistry_init")
  obtain c2 r2 where second: "counter ''cpu'' ?a2 r1 = (c2, r2)"
    by (cases "counter ''cpu'' ?a2 r1")
  from inst first second have
    "c1 = c2 \<and> r2 = r1 \<and> counters r1 ''cpu{host=a,region=eu}'' = Some c1
     \<and> reg_heap r1 c1 = Some (CounterObj (CounterImpl_init ''cpu'' [(''host'', ''a''), (''region'', ''eu'')]))
     \<and> dom (counters r1) = {''cpu{host=a,region=eu}''} \<and> wf_registry r1"
    by simp
  then have "case counter ''cpu'' ?a1 MetricsRegistry_init of
        (c1, r1) \<Rightarrow>
          (case counter ''cpu'' ?a2 r1 of
             (c2, r2) \<Rightarrow> c1 = c2 \<and> r2 = r1
               \<and> counters r1 ''cpu{host=a,region=eu}'' = Some c1
               \<and> reg_heap r1 c1
                   = Some (CounterObj (CounterImpl_init ''cpu'' [(''host'', ''a''), (''region'', ''eu'')]))
               \<and> dom (counters r1) = {''cpu{host=a,region=eu}''}
               \<and> wf_registry r1)"
    unfolding first prod.case second by blast
  with wf m show ?thesis by blast
qed

section \<open>Attribute normalisation\<close>

lemma normalize_value_primitive: "is_primitive v \<Longrightarrow> normalize_value str_of v = v"
  by (cases v) simp_all

lemma normalize_value_other:
  "\<not> is_primitive v \<Longrightarrow> (\<forall>vs. v \<noteq> PyList vs \<and> v \<noteq> PyTuple vs)
   \<Longrightarrow> normalize_value str_of v = PyStr (str_of v)"
  by (cases v) simp_all

lemma dict_set_fresh: "key \<notin> fst ` set d \<Longrightarrow> dict_set key v d = d @ [(key, v)]"
  by (induction d) auto

lemma normalize_loop:
  "distinct (map fst acc @ map fst attrs)
   \<Longrightarrow> foldl (\<lambda>normalized (key, v). dict_set key (f v) normalized) acc attrs
       = acc @ map (\<lambda>(key, v). (key, f v)) attrs"
proof (induction attrs arbitrary: acc)
  case Nil
  show ?case by simp
next
  case (Cons a attrs)
  obtain k v where a: "a = (k, v)" by (cases a)
  have fresh: "k \<notin> fst ` set acc" using Cons.prems a by auto
  have "distinct (map fst (acc @ [(k, f v)]) @ map fst attrs)"
    using Cons.prems a by auto
  then have "foldl (\<lambda>normalized (key, v). dict_set key (f v) normalized) (acc @ [(k, f v)]) attrs
      = (acc @ [(k, f v)]) @ map (\<lambda>(key, v). (key, f v)) attrs"
    by (rule Cons.IH)
  then show ?case using a fresh by (simp add: dict_set_fresh)
qed

lemma normalize_attributes_entries:
  assumes "distinct (map fst attributes)"
  shows "normalize_attributes str_of attributes
           = map (\<lambda>(key, v). (key, normalize_value str_of v)) attributes"
  using assms normalize_loop [of "[]" attributes "normalize_value str_of"]
  by (simp add: normalize_attributes_def)

lemma normalize_attributes_lookup:
  assumes "distinct (map fst attributes)" and "(key, v) \<in> set attributes"
  shows "map_of (normalize_attributes str_of attributes) key = Some (normalize_value str_of v)"
proof -
  have "map_of attributes key = Some v" using assms by simp
  then have "map_of (map (\<lambda>(key, v). (key, normalize_value str_of v)) attributes) key
      = Some (normalize_value str_of v)"
    by (simp add: map_of_map)
  then show ?thesis using assms(1) by (simp add: normalize_attributes_entries)
qed

text \<open>
  Claim C9, as stated: primitive scalars pass through, sequence values are converted
  element by element to strings, every other value becomes its string. The code converts
  element by element only a \<open>list\<close> or a \<open>tuple\<close>: \<open>range(0, 3)\<close> is a sequence, and it
  becomes the one string \<open>range(0, 3)\<close> instead of the list of \<open>0\<close>, \<open>1\<close>, \<open>2\<close>.
\<close>

theorem normalize_sequence_counterexample:
  "sequence_items (PyRange 0 3) = Some [PyInt 0, PyInt 1, PyInt 2]
   \<and> \<not> is_primitive (PyRange 0 3)
   \<and> spec_normalize sample_str (PyRange 0 3) = PyList [PyStr ''0'', PyStr ''1'', PyStr ''2'']
   \<and> normalize_attributes sample_str [(''batch'', PyRange 0 3)] = [(''batch'', PyStr ''range(0, 3)'')]
   \<and> PyStr ''range(0, 3)'' \<noteq> spec_normalize sample_str (PyRange 0 3)"
  by (simp add: spec_normalize_def normalize_attributes_def str_int_def str_nat.simps
      upto_rec1)

text \<open>
  Claim C9, amended: normalisation keeps exactly the keys of the attribute dict, in their
  order, and maps each entry as follows: a string, integer, float or boolean is unchanged; a
  list or a tuple becomes the list of its elements' strings; every other value, a sequence
  of another type included, becomes its string.
\<close>

theorem normalize_attributes_list_tuple:
  assumes "distinct (map fst attributes)"
  shows "map fst (normalize_attributes str_of attributes) = map fst attributes
       \<and> (\<forall>key v. (key, v) \<in> set attributes \<longrightarrow>
             (is_primitive v \<longrightarrow>
                map_of (normalize_attributes str_of attributes) key = Some v)
           \<and> (\<forall>vs. v = PyList vs \<or> v = PyTuple vs \<longrightarrow>
                map_of (normalize_attributes str_of attributes) key
                  = Some (PyList (map (\<lambda>x. PyStr (str_of x)) vs)))
           \<and> (\<not> is_primitive v \<and> (\<forall>vs. v \<noteq> PyList vs \<and> v \<noteq> PyTuple vs) \<longrightarrow>
                map_of (normalize_attributes str_of attributes) key = Some (PyStr (str_of v))))"
proof (intro conjI allI impI)
  have "map fst (map (\<lambda>(key, v). (key, normalize_value str_of v)) attributes) = map fst attributes"
    by (induction attributes) auto
  then show "map fst (normalize_attributes str_of attributes) = map fst attributes"
    using assms by (simp add: normalize_attributes_entries)
next
  fix key v assume "(key, v) \<in> set attributes" and "is_primitive v"
  then show "map_of (normalize_attributes str_of attributes) key = Some v"
    using assms by (simp add: normalize_attributes_lookup normalize_value_primitive)
next
  fix key v vs assume "(key, v) \<in> set attributes" and "v = PyList vs \<or> v = PyTuple vs"
  then show "map_of (normalize_attributes str_of attributes) key
                  = Some (PyList (map (\<lambda>x. PyStr (str_of x)) vs))"
    using assms normalize_attributes_lookup [of attributes key v str_of] by auto
next
  fix key v assume "(key, v) \<in> set attributes"
    and "\<not> is_primitive v \<and> (\<forall>vs. v \<noteq> PyList vs \<and> v \<noteq> PyTuple vs)"
  then show "map_of (normalize_attributes str_of attributes) key = Some (PyStr (str_of v))"
    using assms by (simp add: normalize_attributes_lookup normalize_value_other)
qed

theorem normalize_attributes_list_tuple_witness:
  "distinct (map fst [(''user'', PyStr ''ann''), (''ids'', PyTuple [PyInt 1, PyInt 2]),
                      (''batch'', PyRange 0 3)])
   \<and> is_primitive (PyStr ''ann'')
   \<and> map_of (normalize_attributes sample_str
               [(''user'', PyStr ''ann''), (''ids'', PyTuple [PyInt 1, PyInt 2]),
                (''batch'', PyRange 0 3)]) ''user'' = Some (PyStr ''ann'')
   \<and> map_of (normalize_attributes sample_str
               [(''user'', PyStr ''ann''), (''ids'', PyTuple [PyInt 1, PyInt 2]),
                (''batch'', PyRange 0 3)]) ''ids'' = Some (PyList [PyStr ''1'', PyStr ''2''])
   \<and> \<not> is_primitive (PyRange 0 3) \<and> (\<forall>vs. PyRange 0 3 \<noteq> PyList vs \<and> PyRange 0 3 \<noteq> PyTuple vs)
   \<and> map_of (normalize_attributes sample_str
               [(''user'', PyStr ''ann''), (''ids'', PyTuple [PyInt 1, PyInt 2]),
                (''batch'', PyRange 0 3)]) ''batch'' = Some (PyStr ''range(0, 3)'')
   \<and> map fst (normalize_attributes sample_str
               [(''user'', PyStr ''ann''), (''ids'', PyTuple [PyInt 1, PyInt 2]),
                (''batch'', PyRange 0 3)]) = [''user'', ''ids'', ''batch'']"
proof -
  let ?attrs = "[(''user'', PyStr ''ann''), (''ids'', PyTuple [PyInt 1, PyInt 2]),
                 (''batch'', PyRange 0 3)]"
  have d: "distinct (map fst ?attrs)" by simp
  note inst = normalize_attributes_list_tuple [OF d, of sample_str]
  have keys: "map fst (normalize_attributes sample_str ?attrs) = [''user'', ''ids'', ''batch'']"
    using inst by simp
  have user: "map_of (normalize_attributes sample_str ?attrs) ''user'' = Some (PyStr ''ann'')"
    using inst [THEN conjunct2, rule_format, of "''user''" "PyStr ''ann''", THEN conjunct1]
    by simp
  have ids: "map_of (normalize_attributes sample_str ?attrs) ''ids''
      = Some (PyList (map (\<lambda>x. PyStr (sample_str x)) [PyInt 1, PyInt 2]))"
    using inst [THEN conjunct2, rule_format, of "''ids''" "PyTuple [PyInt 1, PyInt 2]",
                THEN conjunct2, THEN conjunct1, rule_format, of "[PyInt 1, PyInt 2]"]
    by simp
  have batch: "map_of (normalize_attributes sample_str ?attrs) ''batch''
      = Some (PyStr (sample_str (PyRange 0 3)))"
    using inst [THEN conjunct2, rule_format, of "''batch''" "PyRange 0 3",
                THEN conjunct2, THEN conjunct2]
    by simp
  show ?thesis
    using d keys user ids batch by (simp add: str_int_def str_nat.simps)
qed

section \<open>The OTLP encoding\<close>

lemma grouped_append_map:
  "distinct ks \<Longrightarrow>
   grouped_append k x (map (\<lambda>k'. (k', f k')) ks)
     = (if k \<in> set ks then map (\<lambda>k'. (k', if k' = k then f k' @ [x] else f k')) ks
        else map (\<lambda>k'. (k', f k')) ks @ [(k, [x])])"
  by (induction ks) auto

lemma group_points_snoc:
  "group_points (dps @ [dp]) = grouped_append (group_key dp) dp (group_points dps)"
  by (simp add: group_points_def)

lemma group_points_keys:
  "\<exists>ks. distinct ks \<and> set ks = group_key ` set dps
        \<and> group_points dps = map (\<lambda>k. (k, filter (\<lambda>dp. group_key dp = k) dps)) ks"
proof (induction dps rule: rev_induct)
  case Nil
  show ?case by (simp add: group_points_def)
next
  case (snoc dp dps)
  then obtain ks where d: "distinct ks" and s: "set ks = group_key ` set dps"
    and g: "group_points dps = map (\<lambda>k. (k, filter (\<lambda>dp. group_key dp = k) dps)) ks"
    by blast
  let ?k = "group_key dp"
  let ?f = "\<lambda>k. filter (\<lambda>dp. group_key dp = k) dps"
  let ?f' = "\<lambda>k. filter (\<lambda>p. group_key p = k) (dps @ [dp])"
  have step: "group_points (dps @ [dp]) = grouped_append ?k dp (map (\<lambda>k. (k, ?f k)) ks)"
    using g by (simp add: group_points_snoc)
  show ?case
  proof (cases "?k \<in> set ks")
    case True
    have "group_points (dps @ [dp]) = map (\<lambda>k'. (k', if k' = ?k then ?f k' @ [dp] else ?f k')) ks"
      using step d True by (simp add: grouped_append_map)
    also have "\<dots> = map (\<lambda>k. (k, ?f' k)) ks"
      by (rule map_cong) auto
    finally have "group_points (dps @ [dp]) = map (\<lambda>k. (k, ?f' k)) ks" .
    moreover have "set ks = group_key ` set (dps @ [dp])" using s True by auto
    ultimately show ?thesis using d by blast
  next
    case False
    have "group_key p \<noteq> ?k" if "p \<in> set dps" for p
      using that False s by (metis imageI)
    then have none: "?f ?k = []" by (simp add: filter_empty_conv)
    have "group_points (dps @ [dp]) = map (\<lambda>k. (k, ?f k)) ks @ [(?k, [dp])]"
      using step d False by (simp add: grouped_append_map)
    also have "map (\<lambda>k. (k, ?f k)) ks = map (\<lambda>k. (k, ?f' k)) ks"
      using False by (intro map_cong) auto
    also have "[(?k, [dp])] = map (\<lambda>k. (k, ?f' k)) [?k]"
      using none by simp
    finally have "group_points (dps @ [dp]) = map (\<lambda>k. (k, ?f' k)) (ks @ [?k])"
      by simp
    moreover have "distinct (ks @ [?k])" using d False by simp
    moreover have "set (ks @ [?k]) = group_key ` set (dps @ [dp])" using s by auto
    ultimately show ?thesis by blast
  qed
qed

lemma cut_group_key:
  "CHR '':'' \<notin> set (dp_name dp) \<Longrightarrow> cut (group_key dp) = group_of dp"
proof -
  assume "CHR '':'' \<notin> set (dp_name dp)"
  then have no: "\<And>x. x \<in> set (dp_name dp) \<Longrightarrow> x \<noteq> CHR '':''" by auto
  show ?thesis
    by (simp add: cut_def group_key_def group_of_def
        takeWhile_append2 [OF no] dropWhile_append2 [OF no])
qed

lemma otlp_metric_cut:
  "CHR '':'' \<in> set key \<Longrightarrow> otlp_metric (key, dps) = Inr (spec_metric (fst (cut key)) (snd (cut key)) dps)"
  by (simp add: otlp_metric_def split_key_def cut_def spec_metric_def)

lemma otlp_metrics_all:
  "(\<And>g. g \<in> set gs \<Longrightarrow> otlp_metric g = Inr (h g)) \<Longrightarrow> otlp_metrics gs = Inr (map h gs)"
  by (induction gs) simp_all

lemma colon_in_group_key: "CHR '':'' \<in> set (group_key dp)"
  by (simp add: group_key_def)

text \<open>
  When no metric name contains a colon, the payload has exactly one metric entry for each
  pair of name and type among the points, and the entry is the one the specification
  describes, built from the points of that pair in their order.
\<close>

lemma to_otlp_names_without_colon:
  assumes "\<forall>dp \<in> set dps. CHR '':'' \<notin> set (dp_name dp)"
  shows "\<exists>groups. distinct groups \<and> set groups = group_of ` set dps
          \<and> otlp_metrics (group_points dps)
              = Inr (map (\<lambda>(name, metric_type).
                       spec_metric name metric_type (filter (\<lambda>dp. group_of dp = (name, metric_type)) dps))
                     groups)"
proof -
  obtain ks where d: "distinct ks" and s: "set ks = group_key ` set dps"
    and g: "group_points dps = map (\<lambda>k. (k, filter (\<lambda>dp. group_key dp = k) dps)) ks"
    using group_points_keys by blast
  have cut_key: "cut (group_key dp) = group_of dp" if "dp \<in> set dps" for dp
    using that assms by (simp add: cut_group_key)
  have inj: "inj_on cut (set ks)"
  proof (rule inj_onI)
    fix a b assume "a \<in> set ks" "b \<in> set ks" "cut a = cut b"
    then obtain p q where "p \<in> set dps" "q \<in> set dps" "a = group_key p" "b = group_key q"
      using s by auto
    with \<open>cut a = cut b\<close> have "group_of p = group_of q" using cut_key by simp
    then show "a = b" using \<open>a = group_key p\<close> \<open>b = group_key q\<close>
      by (simp add: group_of_def group_key_def)
  qed
  let ?groups = "map cut ks"
  have dist: "distinct ?groups" using d inj by (simp add: distinct_map)
  have "set ?groups = cut ` group_key ` set dps" using s by simp
  also have "\<dots> = group_of ` set dps" using cut_key by (auto simp: image_iff)
  finally have sets: "set ?groups = group_of ` set dps" .
  have same: "filter (\<lambda>dp. group_key dp = k) dps = filter (\<lambda>dp. group_of dp = cut k) dps"
    if "k \<in> set ks" for k
  proof (rule filter_cong [OF refl])
    fix dp assume m: "dp \<in> set dps"
    then have "group_key dp \<in> set ks" using s by simp
    then have "group_key dp = k \<longleftrightarrow> cut (group_key dp) = cut k"
      using inj that by (auto dest: inj_onD)
    then show "(group_key dp = k) = (group_of dp = cut k)" using cut_key [OF m] by simp
  qed
  let ?h = "\<lambda>g. spec_metric (fst (cut (fst g))) (snd (cut (fst g))) (snd g)"
  have "otlp_metrics (group_points dps) = Inr (map ?h (group_points dps))"
  proof (rule otlp_metrics_all)
    fix g assume "g \<in> set (group_points dps)"
    then have "fst g \<in> set ks" using g by auto
    then have "CHR '':'' \<in> set (fst g)" using s colon_in_group_key by auto
    then show "otlp_metric g = Inr (?h g)"
      using otlp_metric_cut [of "fst g" "snd g"] by simp
  qed
  also have "map ?h (group_points dps)
      = map (\<lambda>(name, metric_type).
               spec_metric name metric_type (filter (\<lambda>dp. group_of dp = (name, metric_type)) dps))
            ?groups"
    using same by (simp add: g case_prod_unfold)
  finally show ?thesis using dist sets by blast
qed

text \<open>
  The example of the specification: a counter point \<open>req\<close> and a gauge point \<open>mem\<close> give two
  metric entries, \<open>req\<close> under \<open>sum\<close> and \<open>mem\<close> under \<open>gauge\<close>.
\<close>

lemma to_otlp_req_mem:
  "otlp_metrics (group_points
     [\<lparr>dp_name = ''req'', dp_tags = [], dp_value = 1, dp_timestamp = 0, dp_metric_type = ''counter''\<rparr>,
      \<lparr>dp_name = ''mem'', dp_tags = [], dp_value = 2, dp_timestamp = 0, dp_metric_type = ''gauge''\<rparr>])
   = Inr [JObject [(''name'', JString ''req''),
                   (''sum'', JObject [(''dataPoints'', JArray [
                                         JObject [(''attributes'', JArray []),
                                                  (''timeUnixNano'', JString ''0''),
                                                  (''asDouble'', JDouble 1)]]),
                                      (''aggregationTemporality'', JInt 2),
                                      (''isMonotonic'', JBool True)])],
          JObject [(''name'', JString ''mem''),
                   (''gauge'', JObject [(''dataPoints'', JArray [
                                         JObject [(''attributes'', JArray []),
                                                  (''timeUnixNano'', JString ''0''),
                                                  (''asDouble'', JDouble 2)]])])]]"
  by (simp add: group_points_def group_key_def otlp_metric_def split_key_def
      otlp_data_point_def otlp_attributes_def py_int_def str_int_def str_nat.simps)

text \<open>
  Claim C1 says that every group gets one metric entry that carries the group's name, and
  that a counter group is encoded under \<open>sum\<close>. The code joins name and type with a colon
  and cuts the key at its first colon again, so a counter named \<open>http:requests\<close> comes out
  as a metric named \<open>http\<close> of type \<open>requests:counter\<close>, which is encoded under \<open>gauge\<close>.
\<close>

theorem to_otlp_name_with_colon:
  "to_otlp \<lparr>endpoint = ep, api_key = k, service_name = ''svc''\<rparr>
     [\<lparr>dp_name = ''http:requests'', dp_tags = [], dp_value = 1, dp_timestamp = 0,
       dp_metric_type = ''counter''\<rparr>]
   = Inr (JObject [(''resourceMetrics'', JArray [
            JObject [(''resource'', JObject [(''attributes'', JArray [
                         JObject [(''key'', JString ''service.name''),
                                  (''value'', JObject [(''stringValue'', JString ''svc'')])]])]),
                     (''scopeMetrics'', JArray [
                         JObject [(''scope'', JObject [(''name'', JString ''tracekit'')]),
                                  (''metrics'', JArray [
                                     JObject [(''name'', JString ''http''),
                                              (''gauge'', JObject [(''dataPoints'', JArray [
                                                 JObject [(''attributes'', JArray []),
                                                          (''timeUnixNano'', JString ''0''),
                                                          (''asDouble'', JDouble 1)]])])]])]])]])])"
  by (simp add: to_otlp_def group_points_def group_key_def otlp_metric_def split_key_def
      otlp_data_point_def otlp_attributes_def py_int_def str_int_def str_nat.simps)


end
